theory Spec2Isabelle
  imports Main "HOL-Library.AList"
begin

section \<open>Errors\<close>

text \<open>
  Every exception that the modelled code can raise is a value. \<open>IntegrityError\<close> and
  \<open>DataError\<close> are the SQLAlchemy exceptions raised when the relational engine rejects a
  statement; \<open>ServiceUnavailable\<close> is the Neo4j driver's exception when a query cannot be
  run; \<open>HTTPException\<close> is the one that \<^verbatim>\<open>main.py\<close> raises itself, with its status
  code and detail. Nothing in \<^verbatim>\<open>crud.py\<close>, \<^verbatim>\<open>neo4j_client.py\<close> or
  \<^verbatim>\<open>main.py\<close> catches an exception, so an error raised inside a call is the outcome
  of every enclosing call.
\<close>

datatype error =
    IntegrityError
  | DataError
  | ServiceUnavailable
  | HTTPException int string

type_synonym datetime = int

section \<open>The graph mirror (\<^verbatim>\<open>neo4j_client.py\<close>)\<close>

text \<open>
  A property graph: nodes with an identity of their own (\<open>node_ref\<close>), one label and a
  property list; relationships between node identities. The key \<^verbatim>\<open>id\<close> of the
  Cypher patterns is an ordinary property, so nothing in the data structure prevents two
  nodes with the same label and the same \<^verbatim>\<open>id\<close>.
\<close>

datatype label = User | Todo | Category

datatype reltype = OWNS | CREATED | BELONGS_TO

datatype pvalue = VNull | VInt int | VStr string

record node =
  node_ref :: nat
  node_label :: label
  props :: "(string \<times> pvalue) list"

record relationship =
  rel_start :: nat
  rel_type :: reltype
  rel_end :: nat

record neo4j_graph =
  nodes :: "node list"
  relationships :: "relationship list"
  next_ref :: nat

definition empty_graph :: neo4j_graph where
  "empty_graph = \<lparr>nodes = [], relationships = [], next_ref = 0\<rparr>"

text \<open>Reading a property that is not there gives null, as in Cypher.\<close>

definition prop_of :: "node \<Rightarrow> string \<Rightarrow> pvalue" where
  "prop_of n k = (case map_of (props n) k of None \<Rightarrow> VNull | Some v \<Rightarrow> v)"

text \<open>\<^verbatim>\<open>SET n.k = v\<close>; setting a property to null removes it.\<close>

definition set_prop :: "string \<Rightarrow> pvalue \<Rightarrow> node \<Rightarrow> node" where
  "set_prop k v n =
     n\<lparr>props := (if v = VNull then AList.delete k (props n) else AList.update k v (props n))\<rparr>"

text \<open>The node pattern \<^verbatim>\<open>(x:Label {id: $i})\<close>.\<close>

definition has_label_id :: "label \<Rightarrow> int \<Rightarrow> node \<Rightarrow> bool" where
  "has_label_id l i n \<longleftrightarrow> node_label n = l \<and> prop_of n ''id'' = VInt i"

definition match_nodes :: "neo4j_graph \<Rightarrow> label \<Rightarrow> int \<Rightarrow> node list" where
  "match_nodes g l i = filter (has_label_id l i) (nodes g)"

text \<open>
  \<^verbatim>\<open>MERGE (x:Label {id: $i})\<close>: bind every node that matches the pattern; when none
  does, create one and bind it. The result is the list of bound node identities and the
  graph.
\<close>

definition merge_node :: "label \<Rightarrow> int \<Rightarrow> neo4j_graph \<Rightarrow> nat list \<times> neo4j_graph" where
  "merge_node l i g =
     (case match_nodes g l i of
        [] \<Rightarrow>
          ([next_ref g],
           g\<lparr>nodes := nodes g @ [\<lparr>node_ref = next_ref g, node_label = l, props = [(''id'', VInt i)]\<rparr>],
             next_ref := Suc (next_ref g)\<rparr>)
      | m # ms \<Rightarrow> (map node_ref (m # ms), g))"

text \<open>\<^verbatim>\<open>SET x.k = v\<close> for every bound node \<open>x\<close>.\<close>

definition set_on :: "nat list \<Rightarrow> string \<Rightarrow> pvalue \<Rightarrow> neo4j_graph \<Rightarrow> neo4j_graph" where
  "set_on refs k v g =
     g\<lparr>nodes := map (\<lambda>n. if node_ref n \<in> set refs then set_prop k v n else n) (nodes g)\<rparr>"

text \<open>
  \<^verbatim>\<open>MERGE (a)-[:R]->(b)\<close> for one bound pair: the relationship is created unless one
  of that type between the two nodes is there already.
\<close>

definition merge_relationship :: "reltype \<Rightarrow> nat \<times> nat \<Rightarrow> neo4j_graph \<Rightarrow> neo4j_graph" where
  "merge_relationship r p g =
     (if \<exists>x \<in> set (relationships g). rel_start x = fst p \<and> rel_type x = r \<and> rel_end x = snd p
      then g
      else g\<lparr>relationships := relationships g @ [\<lparr>rel_start = fst p, rel_type = r, rel_end = snd p\<rparr>]\<rparr>)"

text \<open>
  The client's methods. Each runs one Cypher statement in an auto-commit transaction; the
  argument \<open>up\<close> says whether the driver can run it. When it cannot, the driver raises and
  the graph is as before.
\<close>

definition create_user_node ::
  "bool \<Rightarrow> neo4j_graph \<Rightarrow> int \<Rightarrow> string \<Rightarrow> string \<Rightarrow> error + neo4j_graph" where
  "create_user_node up g user_id username email =
     (if \<not> up then Inl ServiceUnavailable
      else
        let (u, g1) = merge_node User user_id g;
            g2 = set_on u ''username'' (VStr username) g1;
            g3 = set_on u ''email'' (VStr email) g2
        in Inr g3)"

text \<open>
  The title is \<^verbatim>\<open>db_todo.title\<close>, an attribute of a Python object, which may hold
  \<^verbatim>\<open>None\<close>; the driver sends that as null.
\<close>

definition create_todo_node ::
  "bool \<Rightarrow> neo4j_graph \<Rightarrow> int \<Rightarrow> string option \<Rightarrow> int \<Rightarrow> error + neo4j_graph" where
  "create_todo_node up g todo_id title user_id =
     (if \<not> up then Inl ServiceUnavailable
      else
        let (t, g1) = merge_node Todo todo_id g;
            g2 = set_on t ''title'' (case title of None \<Rightarrow> VNull | Some s \<Rightarrow> VStr s) g1;
            rows = [(node_ref u, t'). t' \<leftarrow> t, u \<leftarrow> match_nodes g2 User user_id]
        in Inr (fold (merge_relationship OWNS) rows g2))"

definition create_category_node ::
  "bool \<Rightarrow> neo4j_graph \<Rightarrow> int \<Rightarrow> string \<Rightarrow> int \<Rightarrow> error + neo4j_graph" where
  "create_category_node up g category_id name user_id =
     (if \<not> up then Inl ServiceUnavailable
      else
        let (c, g1) = merge_node Category category_id g;
            g2 = set_on c ''name'' (VStr name) g1;
            rows = [(node_ref u, c'). c' \<leftarrow> c, u \<leftarrow> match_nodes g2 User user_id]
        in Inr (fold (merge_relationship CREATED) rows g2))"

definition link_todo_to_category ::
  "bool \<Rightarrow> neo4j_graph \<Rightarrow> int \<Rightarrow> int \<Rightarrow> error + neo4j_graph" where
  "link_todo_to_category up g todo_id category_id =
     (if \<not> up then Inl ServiceUnavailable
      else
        let rows = [(node_ref t, node_ref c).
                      t \<leftarrow> match_nodes g Todo todo_id, c \<leftarrow> match_nodes g Category category_id]
        in Inr (fold (merge_relationship BELONGS_TO) rows g))"

text \<open>
  The recommendation query. Each \<^verbatim>\<open>MATCH\<close> enumerates the paths of its pattern; the
  two relationships of one pattern have different types, hence are different
  relationships. \<^verbatim>\<open>other_user.id <> $user_id\<close> is null, and the row dropped, when the
  property is missing. A row is the pair (recommendation, category) of the returned
  dictionary.
\<close>

definition node_at :: "neo4j_graph \<Rightarrow> nat \<Rightarrow> label \<Rightarrow> node list" where
  "node_at g r l = filter (\<lambda>n. node_ref n = r \<and> node_label n = l) (nodes g)"

definition rels_from :: "neo4j_graph \<Rightarrow> reltype \<Rightarrow> nat \<Rightarrow> relationship list" where
  "rels_from g ty r = filter (\<lambda>x. rel_type x = ty \<and> rel_start x = r) (relationships g)"

definition rels_to :: "neo4j_graph \<Rightarrow> reltype \<Rightarrow> nat \<Rightarrow> relationship list" where
  "rels_to g ty r = filter (\<lambda>x. rel_type x = ty \<and> rel_end x = r) (relationships g)"

definition recommendation_rows :: "neo4j_graph \<Rightarrow> int \<Rightarrow> (pvalue \<times> pvalue) list" where
  "recommendation_rows g user_id =
     [(prop_of other_todo ''title'', prop_of c ''name'').
        u \<leftarrow> match_nodes g User user_id,
        r1 \<leftarrow> rels_from g OWNS (node_ref u),
        t \<leftarrow> node_at g (rel_end r1) Todo,
        r2 \<leftarrow> rels_from g BELONGS_TO (node_ref t),
        c \<leftarrow> node_at g (rel_end r2) Category,
        r3 \<leftarrow> rels_to g BELONGS_TO (node_ref c),
        other_todo \<leftarrow> node_at g (rel_start r3) Todo,
        r4 \<leftarrow> rels_to g OWNS (node_ref other_todo),
        other_user \<leftarrow> node_at g (rel_start r4) User,
        prop_of other_user ''id'' \<noteq> VNull \<and> prop_of other_user ''id'' \<noteq> VInt user_id]"

definition get_todo_recommendations ::
  "bool \<Rightarrow> neo4j_graph \<Rightarrow> int \<Rightarrow> error + (pvalue \<times> pvalue) list" where
  "get_todo_recommendations up g user_id =
     (if \<not> up then Inl ServiceUnavailable else Inr (take 5 (recommendation_rows g user_id)))"

section \<open>The relational store (\<^verbatim>\<open>models.py\<close>, \<^verbatim>\<open>schemas.py\<close>)\<close>

text \<open>
  The mapped classes of \<^verbatim>\<open>models.py\<close>. A \<open>todo\<close> is the Python object as well as
  the row: \<^verbatim>\<open>setattr\<close> can put \<^verbatim>\<open>None\<close> into any updatable attribute, so
  these are options, the title too, whose column is \<^verbatim>\<open>nullable=False\<close>; the
  constraint is checked when the object is flushed.
\<close>

record user =
  u_id :: int
  u_username :: string
  u_email :: string
  u_hashed_password :: string
  u_is_active :: bool
  u_created_at :: datetime

record todo =
  t_id :: int
  t_title :: "string option"
  t_description :: "string option"
  t_completed :: "bool option"
  t_priority :: "string option"
  t_created_at :: datetime
  t_updated_at :: "datetime option"
  t_due_date :: "datetime option"
  t_user_id :: int

record category =
  c_id :: int
  c_name :: string
  c_color :: string
  c_user_id :: int
  c_created_at :: datetime

text \<open>
  The request schemas of \<^verbatim>\<open>schemas.py\<close>, after validation (defaults filled in). In
  \<open>todo_update\<close> the outer option says whether the request set the field at all
  (\<^verbatim>\<open>exclude_unset\<close> tells the two apart), the inner one is the value, which
  \<^verbatim>\<open>Optional\<close> allows to be \<^verbatim>\<open>None\<close>.
\<close>

record user_create =
  uc_username :: string
  uc_email :: string
  uc_password :: string

record todo_create =
  tc_title :: string
  tc_description :: "string option"
  tc_priority :: string
  tc_due_date :: "datetime option"

record todo_update =
  tu_title :: "string option option"
  tu_description :: "string option option"
  tu_completed :: "bool option option"
  tu_priority :: "string option option"
  tu_due_date :: "datetime option option"

record category_create =
  cc_name :: string
  cc_color :: string

text \<open>
  The three tables, in insertion order, and the next value of each table's id sequence.
\<close>

record database =
  users :: "user list"
  todos :: "todo list"
  categories :: "category list"
  users_seq :: int
  todos_seq :: int
  categories_seq :: int

definition empty_database :: database where
  "empty_database =
     \<lparr>users = [], todos = [], categories = [], users_seq = 1, todos_seq = 1, categories_seq = 1\<rparr>"

text \<open>The service's state: the relational store and the graph mirror.\<close>

record state =
  db :: database
  neo4j :: neo4j_graph

definition init_state :: state where
  "init_state = \<lparr>db = empty_database, neo4j = empty_graph\<rparr>"

subsection \<open>\<^verbatim>\<open>db.add\<close>, \<^verbatim>\<open>db.commit\<close>, \<^verbatim>\<open>db.refresh\<close>\<close>

text \<open>
  The session and the engine behind it (\<^verbatim>\<open>database.py\<close>) are not part of the
  sources; they are modelled as far as \<^verbatim>\<open>models.py\<close> fixes them. An insert draws
  the id from the table's sequence, fills the column defaults and appends the row, unless
  a constraint declared in \<^verbatim>\<open>models.py\<close> rejects it: \<^verbatim>\<open>unique=True\<close> on
  username and email, the foreign key of \<^verbatim>\<open>user_id\<close>. A rejected statement leaves
  the tables as they were. The result is the refreshed object and the store. Strings are
  taken to fit their columns: the lengths of \<^verbatim>\<open>String(n)\<close> are not modelled, nor
  are failures of the connection.
\<close>

definition insert_user ::
  "database \<Rightarrow> string \<Rightarrow> string \<Rightarrow> string \<Rightarrow> datetime \<Rightarrow> error + user \<times> database" where
  "insert_user d username email hashed_password now =
     (if \<exists>u \<in> set (users d). u_username u = username \<or> u_email u = email
      then Inl IntegrityError
      else
        let row = \<lparr>u_id = users_seq d, u_username = username, u_email = email,
                   u_hashed_password = hashed_password, u_is_active = True, u_created_at = now\<rparr>
        in Inr (row, d\<lparr>users := users d @ [row], users_seq := users_seq d + 1\<rparr>))"

definition insert_todo ::
  "database \<Rightarrow> todo_create \<Rightarrow> int \<Rightarrow> datetime \<Rightarrow> error + todo \<times> database" where
  "insert_todo d todo user_id now =
     (if \<not> (\<exists>u \<in> set (users d). u_id u = user_id)
      then Inl IntegrityError
      else
        let row = \<lparr>t_id = todos_seq d, t_title = Some (tc_title todo),
                   t_description = tc_description todo, t_completed = Some False,
                   t_priority = Some (tc_priority todo), t_created_at = now,
                   t_updated_at = None, t_due_date = tc_due_date todo, t_user_id = user_id\<rparr>
        in Inr (row, d\<lparr>todos := todos d @ [row], todos_seq := todos_seq d + 1\<rparr>))"

definition insert_category ::
  "database \<Rightarrow> category_create \<Rightarrow> int \<Rightarrow> datetime \<Rightarrow> error + category \<times> database" where
  "insert_category d category user_id now =
     (if \<not> (\<exists>u \<in> set (users d). u_id u = user_id)
      then Inl IntegrityError
      else
        let row = \<lparr>c_id = categories_seq d, c_name = cc_name category,
                   c_color = cc_color category, c_user_id = user_id, c_created_at = now\<rparr>
        in Inr (row, d\<lparr>categories := categories d @ [row],
                        categories_seq := categories_seq d + 1\<rparr>))"

text \<open>
  Flushing a changed object: no statement is emitted when no attribute differs from the
  loaded row; otherwise the row with that primary key is updated,
  \<^verbatim>\<open>onupdate=func.now()\<close> stamps \<^verbatim>\<open>updated_at\<close>, and a null title is rejected.
\<close>

definition flush_todo ::
  "database \<Rightarrow> todo \<Rightarrow> todo \<Rightarrow> datetime \<Rightarrow> error + todo \<times> database" where
  "flush_todo d loaded obj now =
     (if obj = loaded then Inr (loaded, d)
      else if t_title obj = None then Inl IntegrityError
      else
        let row = obj\<lparr>t_updated_at := Some now\<rparr>
        in Inr (row, d\<lparr>todos := map (\<lambda>r. if t_id r = t_id loaded then row else r) (todos d)\<rparr>))"

text \<open>\<^verbatim>\<open>db.delete\<close>: the row with the object's primary key is deleted.\<close>

definition delete_row :: "database \<Rightarrow> todo \<Rightarrow> database" where
  "delete_row d obj = d\<lparr>todos := filter (\<lambda>r. t_id r \<noteq> t_id obj) (todos d)\<rparr>"

section \<open>\<^verbatim>\<open>crud.py\<close>\<close>

text \<open>
  Every function takes the state and returns its outcome with the state it leaves.
  \<^verbatim>\<open>auth.get_password_hash\<close> is a parameter, \<^verbatim>\<open>now\<close> the clock of the relational
  engine, \<^verbatim>\<open>up\<close> whether the graph engine answers during the call.
\<close>

definition get_user :: "database \<Rightarrow> int \<Rightarrow> user option" where
  "get_user d user_id = List.find (\<lambda>u. u_id u = user_id) (users d)"

definition get_user_by_username :: "database \<Rightarrow> string \<Rightarrow> user option" where
  "get_user_by_username d username = List.find (\<lambda>u. u_username u = username) (users d)"

definition get_user_by_email :: "database \<Rightarrow> string \<Rightarrow> user option" where
  "get_user_by_email d email = List.find (\<lambda>u. u_email u = email) (users d)"

definition create_user ::
  "(string \<Rightarrow> string) \<Rightarrow> bool \<Rightarrow> datetime \<Rightarrow> user_create \<Rightarrow> state \<Rightarrow> (error + user) \<times> state" where
  "create_user get_password_hash up now user s =
     (let hashed_password = get_password_hash (uc_password user) in
      case insert_user (db s) (uc_username user) (uc_email user) hashed_password now of
        Inl e \<Rightarrow> (Inl e, s)
      | Inr (db_user, d) \<Rightarrow>
          (case create_user_node up (neo4j s) (u_id db_user) (u_username db_user) (u_email db_user) of
             Inl e \<Rightarrow> (Inl e, s\<lparr>db := d\<rparr>)
           | Inr g \<Rightarrow> (Inr db_user, s\<lparr>db := d, neo4j := g\<rparr>)))"

text \<open>
  Negative \<^verbatim>\<open>OFFSET\<close> and \<^verbatim>\<open>LIMIT\<close> are rejected by the engine (PostgreSQL, as
  \<^verbatim>\<open>main.py\<close> names it); the code passes \<^verbatim>\<open>skip\<close> and \<^verbatim>\<open>limit\<close> on unchecked.
\<close>

definition get_todos :: "database \<Rightarrow> int \<Rightarrow> int \<Rightarrow> int \<Rightarrow> error + todo list" where
  "get_todos d user_id skip limit =
     (if skip < 0 \<or> limit < 0 then Inl DataError
      else Inr (take (nat limit) (drop (nat skip) (filter (\<lambda>t. t_user_id t = user_id) (todos d)))))"

definition get_todo :: "database \<Rightarrow> int \<Rightarrow> int \<Rightarrow> todo option" where
  "get_todo d todo_id user_id =
     List.find (\<lambda>t. t_id t = todo_id \<and> t_user_id t = user_id) (todos d)"

definition create_todo ::
  "bool \<Rightarrow> datetime \<Rightarrow> todo_create \<Rightarrow> int \<Rightarrow> state \<Rightarrow> (error + todo) \<times> state" where
  "create_todo up now todo user_id s =
     (case insert_todo (db s) todo user_id now of
        Inl e \<Rightarrow> (Inl e, s)
      | Inr (db_todo, d) \<Rightarrow>
          (case create_todo_node up (neo4j s) (t_id db_todo) (t_title db_todo) user_id of
             Inl e \<Rightarrow> (Inl e, s\<lparr>db := d\<rparr>)
           | Inr g \<Rightarrow> (Inr db_todo, s\<lparr>db := d, neo4j := g\<rparr>)))"

text \<open>
  \<^verbatim>\<open>todo_update.dict(exclude_unset=True)\<close>: one item per field the request set, in the
  order of the schema's fields; the loop applies \<^verbatim>\<open>setattr\<close> to each.
\<close>

datatype item =
    Title "string option"
  | Description "string option"
  | Completed "bool option"
  | Priority "string option"
  | Due_date "datetime option"

definition dict_exclude_unset :: "todo_update \<Rightarrow> item list" where
  "dict_exclude_unset u =
     (case tu_title u of None \<Rightarrow> [] | Some v \<Rightarrow> [Title v]) @
     (case tu_description u of None \<Rightarrow> [] | Some v \<Rightarrow> [Description v]) @
     (case tu_completed u of None \<Rightarrow> [] | Some v \<Rightarrow> [Completed v]) @
     (case tu_priority u of None \<Rightarrow> [] | Some v \<Rightarrow> [Priority v]) @
     (case tu_due_date u of None \<Rightarrow> [] | Some v \<Rightarrow> [Due_date v])"

fun setattr :: "todo \<Rightarrow> item \<Rightarrow> todo" where
  "setattr t (Title v) = t\<lparr>t_title := v\<rparr>"
| "setattr t (Description v) = t\<lparr>t_description := v\<rparr>"
| "setattr t (Completed v) = t\<lparr>t_completed := v\<rparr>"
| "setattr t (Priority v) = t\<lparr>t_priority := v\<rparr>"
| "setattr t (Due_date v) = t\<lparr>t_due_date := v\<rparr>"

definition update_todo ::
  "datetime \<Rightarrow> int \<Rightarrow> todo_update \<Rightarrow> int \<Rightarrow> state \<Rightarrow> (error + todo option) \<times> state" where
  "update_todo now todo_id todo_update user_id s =
     (case get_todo (db s) todo_id user_id of
        None \<Rightarrow> (Inr None, s)
      | Some db_todo \<Rightarrow>
          (let update_data = dict_exclude_unset todo_update;
               obj = foldl setattr db_todo update_data
           in case flush_todo (db s) db_todo obj now of
                Inl e \<Rightarrow> (Inl e, s)
              | Inr (row, d) \<Rightarrow> (Inr (Some row), s\<lparr>db := d\<rparr>)))"

definition delete_todo :: "int \<Rightarrow> int \<Rightarrow> state \<Rightarrow> todo option \<times> state" where
  "delete_todo todo_id user_id s =
     (case get_todo (db s) todo_id user_id of
        None \<Rightarrow> (None, s)
      | Some db_todo \<Rightarrow> (Some db_todo, s\<lparr>db := delete_row (db s) db_todo\<rparr>))"

definition get_categories :: "database \<Rightarrow> int \<Rightarrow> category list" where
  "get_categories d user_id = filter (\<lambda>c. c_user_id c = user_id) (categories d)"

definition create_category ::
  "bool \<Rightarrow> datetime \<Rightarrow> category_create \<Rightarrow> int \<Rightarrow> state \<Rightarrow> (error + category) \<times> state" where
  "create_category up now category user_id s =
     (case insert_category (db s) category user_id now of
        Inl e \<Rightarrow> (Inl e, s)
      | Inr (db_category, d) \<Rightarrow>
          (case create_category_node up (neo4j s) (c_id db_category) (c_name db_category) user_id of
             Inl e \<Rightarrow> (Inl e, s\<lparr>db := d\<rparr>)
           | Inr g \<Rightarrow> (Inr db_category, s\<lparr>db := d, neo4j := g\<rparr>)))"

section \<open>The endpoints of \<^verbatim>\<open>main.py\<close>\<close>

text \<open>
  \<^verbatim>\<open>current_user\<close> is the user that \<^verbatim>\<open>auth.get_current_active_user\<close> resolved from
  the bearer token. The endpoints that share a name with a function of
  \<^verbatim>\<open>crud.py\<close> carry the prefix \<open>api\<close>. Serialising the returned object into the
  response model is the framework's part and is not modelled.
\<close>

definition register ::
  "(string \<Rightarrow> string) \<Rightarrow> bool \<Rightarrow> datetime \<Rightarrow> user_create \<Rightarrow> state \<Rightarrow> (error + user) \<times> state" where
  "register get_password_hash up now user s =
     (case get_user_by_username (db s) (uc_username user) of
        Some db_user \<Rightarrow> (Inl (HTTPException 400 ''Username already registered''), s)
      | None \<Rightarrow>
          (case get_user_by_email (db s) (uc_email user) of
             Some db_user \<Rightarrow> (Inl (HTTPException 400 ''Email already registered''), s)
           | None \<Rightarrow> create_user get_password_hash up now user s))"

definition api_create_todo ::
  "bool \<Rightarrow> datetime \<Rightarrow> todo_create \<Rightarrow> user \<Rightarrow> state \<Rightarrow> (error + todo) \<times> state" where
  "api_create_todo up now todo current_user s = create_todo up now todo (u_id current_user) s"

definition read_todos :: "int \<Rightarrow> int \<Rightarrow> user \<Rightarrow> state \<Rightarrow> error + todo list" where
  "read_todos skip limit current_user s = get_todos (db s) (u_id current_user) skip limit"

definition read_todo :: "int \<Rightarrow> user \<Rightarrow> state \<Rightarrow> (error + todo) \<times> state" where
  "read_todo todo_id current_user s =
     (case get_todo (db s) todo_id (u_id current_user) of
        None \<Rightarrow> (Inl (HTTPException 404 ''Todo not found''), s)
      | Some db_todo \<Rightarrow> (Inr db_todo, s))"

definition api_update_todo ::
  "datetime \<Rightarrow> int \<Rightarrow> todo_update \<Rightarrow> user \<Rightarrow> state \<Rightarrow> (error + todo) \<times> state" where
  "api_update_todo now todo_id todo_update current_user s =
     (case update_todo now todo_id todo_update (u_id current_user) s of
        (Inl e, s') \<Rightarrow> (Inl e, s')
      | (Inr None, s') \<Rightarrow> (Inl (HTTPException 404 ''Todo not found''), s')
      | (Inr (Some db_todo), s') \<Rightarrow> (Inr db_todo, s'))"

definition api_delete_todo :: "int \<Rightarrow> user \<Rightarrow> state \<Rightarrow> (error + string) \<times> state" where
  "api_delete_todo todo_id current_user s =
     (case delete_todo todo_id (u_id current_user) s of
        (None, s') \<Rightarrow> (Inl (HTTPException 404 ''Todo not found''), s')
      | (Some db_todo, s') \<Rightarrow> (Inr ''Todo deleted successfully'', s'))"

definition api_create_category ::
  "bool \<Rightarrow> datetime \<Rightarrow> category_create \<Rightarrow> user \<Rightarrow> state \<Rightarrow> (error + category) \<times> state" where
  "api_create_category up now category current_user s =
     create_category up now category (u_id current_user) s"

definition read_categories :: "user \<Rightarrow> state \<Rightarrow> category list" where
  "read_categories current_user s = get_categories (db s) (u_id current_user)"

definition get_recommendations :: "bool \<Rightarrow> user \<Rightarrow> state \<Rightarrow> error + (pvalue \<times> pvalue) list" where
  "get_recommendations up current_user s =
     get_todo_recommendations up (neo4j s) (u_id current_user)"

text \<open>
  One request that may change the state: a step of the service. Only the five endpoints
  that write are steps; the current user of a request is a stored user.
\<close>

inductive api_step :: "state \<Rightarrow> state \<Rightarrow> bool" where
  step_register: "api_step s (snd (register get_password_hash up now user s))"
| step_create_todo:
    "current_user \<in> set (users (db s)) \<Longrightarrow>
       api_step s (snd (api_create_todo up now todo current_user s))"
| step_update_todo:
    "current_user \<in> set (users (db s)) \<Longrightarrow>
       api_step s (snd (api_update_todo now todo_id todo_update current_user s))"
| step_delete_todo:
    "current_user \<in> set (users (db s)) \<Longrightarrow>
       api_step s (snd (api_delete_todo todo_id current_user s))"
| step_create_category:
    "current_user \<in> set (users (db s)) \<Longrightarrow>
       api_step s (snd (api_create_category up now category current_user s))"

text \<open>
  The states that a sequence of requests leads to from a given state, and the states the
  service reaches from the empty stores.
\<close>

inductive reachable_from :: "state \<Rightarrow> state \<Rightarrow> bool" where
  reachable_from_start: "reachable_from s s"
| reachable_from_step: "reachable_from s s' \<Longrightarrow> api_step s' s'' \<Longrightarrow> reachable_from s s''"

definition reachable :: "state \<Rightarrow> bool" where
  "reachable s \<longleftrightarrow> reachable_from init_state s"

section \<open>Notions used to state the properties\<close>

text \<open>
  The edges of the graph mirror, read off the stored relationships: a User node owns a
  Todo node, a Todo node belongs to a Category node.
\<close>

definition linked :: "neo4j_graph \<Rightarrow> reltype \<Rightarrow> node \<Rightarrow> node \<Rightarrow> bool" where
  "linked g ty a b \<longleftrightarrow>
     a \<in> set (nodes g) \<and> b \<in> set (nodes g) \<and>
     (\<exists>r \<in> set (relationships g). rel_type r = ty \<and> rel_start r = node_ref a \<and> rel_end r = node_ref b)"

definition owns :: "neo4j_graph \<Rightarrow> node \<Rightarrow> node \<Rightarrow> bool" where
  "owns g u t \<longleftrightarrow> node_label u = User \<and> node_label t = Todo \<and> linked g OWNS u t"

definition belongs_to :: "neo4j_graph \<Rightarrow> node \<Rightarrow> node \<Rightarrow> bool" where
  "belongs_to g t c \<longleftrightarrow> node_label t = Todo \<and> node_label c = Category \<and> linked g BELONGS_TO t c"

text \<open>
  A pair (title, category name) qualifies as a recommendation for a user id when it is
  read off a todo of another user that belongs to a category to which a todo of that
  user belongs.
\<close>

definition qualifies :: "neo4j_graph \<Rightarrow> int \<Rightarrow> pvalue \<times> pvalue \<Rightarrow> bool" where
  "qualifies g user_id p \<longleftrightarrow>
     (\<exists>u t c other_todo other_user.
        prop_of u ''id'' = VInt user_id \<and> owns g u t \<and> belongs_to g t c \<and>
        belongs_to g other_todo c \<and> owns g other_user other_todo \<and>
        prop_of other_user ''id'' \<noteq> VInt user_id \<and>
        p = (prop_of other_todo ''title'', prop_of c ''name''))"

definition no_belongs_to :: "neo4j_graph \<Rightarrow> bool" where
  "no_belongs_to g \<longleftrightarrow> (\<forall>r \<in> set (relationships g). rel_type r \<noteq> BELONGS_TO)"

text \<open>
  What the relational engine maintains for the todos table: the primary key identifies
  the row, ids come from the sequence, the title is not null.
\<close>

definition todos_table_ok :: "database \<Rightarrow> bool" where
  "todos_table_ok d \<longleftrightarrow>
     distinct (map t_id (todos d)) \<and>
     (\<forall>t \<in> set (todos d). t_id t < todos_seq d \<and> t_title t \<noteq> None)"

text \<open>
  An id is retired when the sequence has passed it and no row of the table has it.
\<close>

definition retired :: "int \<Rightarrow> database \<Rightarrow> bool" where
  "retired k d \<longleftrightarrow> k < todos_seq d \<and> k \<notin> t_id ` set (todos d)"

text \<open>
  A graph is keyed when no two of its nodes have the same label and the same
  \<^verbatim>\<open>id\<close>.
\<close>

definition keyed :: "neo4j_graph \<Rightarrow> bool" where
  "keyed g \<longleftrightarrow> (\<forall>l i. length (match_nodes g l i) \<le> 1)"

section \<open>A sample run\<close>

text \<open>
  Alice and Bob register, and Bob creates a todo; the state after these three requests
  is the concrete input at which the theorems below are instantiated.
\<close>

definition alice :: user where
  "alice = \<lparr>u_id = 1, u_username = ''alice'', u_email = ''alice@example.org'',
             u_hashed_password = ''#wonderland'', u_is_active = True, u_created_at = 100\<rparr>"

definition bob :: user where
  "bob = \<lparr>u_id = 2, u_username = ''bob'', u_email = ''bob@example.org'',
           u_hashed_password = ''#builder'', u_is_active = True, u_created_at = 101\<rparr>"

definition ship_release :: todo where
  "ship_release = \<lparr>t_id = 1, t_title = Some ''Ship release'', t_description = None,
                    t_completed = Some False, t_priority = Some ''medium'', t_created_at = 200,
                    t_updated_at = None, t_due_date = None, t_user_id = 2\<rparr>"

definition write_report :: todo_create where
  "write_report = \<lparr>tc_title = ''Write report'', tc_description = None, tc_priority = ''high'',
                    tc_due_date = Some 900\<rparr>"

definition sample_hash :: "string \<Rightarrow> string" where
  "sample_hash password = CHR ''#'' # password"

definition sample_state :: state where
  "sample_state =
     snd (api_create_todo True 200
            \<lparr>tc_title = ''Ship release'', tc_description = None, tc_priority = ''medium'',
               tc_due_date = None\<rparr> bob
       (snd (register sample_hash True 101
               \<lparr>uc_username = ''bob'', uc_email = ''bob@example.org'', uc_password = ''builder''\<rparr>
          (snd (register sample_hash True 100
                  \<lparr>uc_username = ''alice'', uc_email = ''alice@example.org'',
                     uc_password = ''wonderland''\<rparr>
                  init_state)))))"

text \<open>
  A graph in which Bob's todo and a todo of Alice belong to the category that Alice
  created. The service does not produce it: the two \<open>BELONGS_TO\<close> relationships are
  what \<open>link_todo_to_category\<close> would add.
\<close>

definition shared_graph :: neo4j_graph where
  "shared_graph =
     \<lparr>nodes =
        [\<lparr>node_ref = 0, node_label = User,
           props = [(''id'', VInt 1), (''username'', VStr ''alice''),
                    (''email'', VStr ''alice@example.org'')]\<rparr>,
         \<lparr>node_ref = 1, node_label = User,
           props = [(''id'', VInt 2), (''username'', VStr ''bob''),
                    (''email'', VStr ''bob@example.org'')]\<rparr>,
         \<lparr>node_ref = 2, node_label = Todo,
           props = [(''id'', VInt 1), (''title'', VStr ''Ship release'')]\<rparr>,
         \<lparr>node_ref = 3, node_label = Todo,
           props = [(''id'', VInt 2), (''title'', VStr ''Write report'')]\<rparr>,
         \<lparr>node_ref = 4, node_label = Category,
           props = [(''id'', VInt 1), (''name'', VStr ''Work'')]\<rparr>],
      relationships =
        [\<lparr>rel_start = 1, rel_type = OWNS, rel_end = 2\<rparr>,
         \<lparr>rel_start = 0, rel_type = OWNS, rel_end = 3\<rparr>,
         \<lparr>rel_start = 0, rel_type = CREATED, rel_end = 4\<rparr>,
         \<lparr>rel_start = 3, rel_type = BELONGS_TO, rel_end = 4\<rparr>,
         \<lparr>rel_start = 2, rel_type = BELONGS_TO, rel_end = 4\<rparr>],
      next_ref = 5\<rparr>"

section \<open>Properties of the graph operations\<close>

lemma prop_set_prop_same: "v \<noteq> VNull \<Longrightarrow> prop_of (set_prop k v n) k = v"
  by (simp add: prop_of_def set_prop_def update_conv')

lemma prop_set_prop_other: "k' \<noteq> k \<Longrightarrow> prop_of (set_prop k v n) k' = prop_of n k'"
  by (simp add: prop_of_def set_prop_def update_conv' delete_conv')

lemma has_label_id_set_prop:
  "k \<noteq> ''id'' \<Longrightarrow> has_label_id l i (set_prop k v n) = has_label_id l i n"
  by (simp add: has_label_id_def prop_set_prop_other) (simp add: set_prop_def)

lemma match_nodes_set_on:
  "k \<noteq> ''id'' \<Longrightarrow>
   match_nodes (set_on refs k v g) l i =
     map (\<lambda>n. if node_ref n \<in> set refs then set_prop k v n else n) (match_nodes g l i)"
  by (simp add: match_nodes_def set_on_def filter_map comp_def has_label_id_set_prop if_distrib [of "has_label_id l i"] cong: if_cong)

lemma node_ref_set_prop: "node_ref (set_prop k v n) = node_ref n"
  by (simp add: set_prop_def)

lemma merge_node_cases:
  assumes "merge_node l i g = (refs, g1)"
  shows "(match_nodes g l i = [] \<and> refs = [next_ref g] \<and>
            g1 = g\<lparr>nodes := nodes g @ [\<lparr>node_ref = next_ref g, node_label = l, props = [(''id'', VInt i)]\<rparr>],
                   next_ref := Suc (next_ref g)\<rparr>) \<or>
         (match_nodes g l i \<noteq> [] \<and> refs = map node_ref (match_nodes g l i) \<and> g1 = g)"
  using assms by (auto simp: merge_node_def split: list.splits)

lemma has_label_id_new: "has_label_id l i \<lparr>node_ref = r, node_label = l, props = [(''id'', VInt i)]\<rparr>"
  by (simp add: has_label_id_def prop_of_def)

lemma merge_node_bound:
  assumes "merge_node l i g = (refs, g1)"
  shows "node_ref ` set (match_nodes g1 l i) \<subseteq> set refs"
    and "length (match_nodes g1 l i) = max 1 (length (match_nodes g l i))"
    and "relationships g1 = relationships g"
proof -
  let ?new = "\<lparr>node_ref = next_ref g, node_label = l, props = [(''id'', VInt i)]\<rparr>"
  consider
    (created) "match_nodes g l i = []" "refs = [next_ref g]"
      "g1 = g\<lparr>nodes := nodes g @ [?new], next_ref := Suc (next_ref g)\<rparr>"
  | (bound) "match_nodes g l i \<noteq> []" "refs = map node_ref (match_nodes g l i)" "g1 = g"
    using merge_node_cases [OF assms] by blast
  then have "node_ref ` set (match_nodes g1 l i) \<subseteq> set refs \<and>
      length (match_nodes g1 l i) = max 1 (length (match_nodes g l i)) \<and>
      relationships g1 = relationships g"
  proof cases
    case created
    from created(1) have "match_nodes g1 l i = [?new]"
      unfolding created(3) by (simp add: match_nodes_def has_label_id_new)
    with created show ?thesis by simp
  next
    case bound
    then have "1 \<le> length (match_nodes g l i)"
      by (cases "match_nodes g l i") simp_all
    with bound show ?thesis by (simp add: max_def)
  qed
  then show "node_ref ` set (match_nodes g1 l i) \<subseteq> set refs"
    and "length (match_nodes g1 l i) = max 1 (length (match_nodes g l i))"
    and "relationships g1 = relationships g" by simp_all
qed

text \<open>What one run of the user statement leaves.\<close>

lemma create_user_node_result:
  "\<exists>g'. create_user_node True g user_id username email = Inr g' \<and>
     length (match_nodes g' User user_id) = max 1 (length (match_nodes g User user_id)) \<and>
     (\<forall>n \<in> set (match_nodes g' User user_id).
        prop_of n ''username'' = VStr username \<and> prop_of n ''email'' = VStr email) \<and>
     relationships g' = relationships g \<and>
     (match_nodes g User user_id \<noteq> [] \<longrightarrow>
        length (nodes g') = length (nodes g) \<and> next_ref g' = next_ref g)"
proof -
  obtain u g1 where m: "merge_node User user_id g = (u, g1)"
    by (cases "merge_node User user_id g")
  let ?f = "\<lambda>k v n. if node_ref n \<in> set u then set_prop k v n else n"
  let ?g' = "set_on u ''email'' (VStr email) (set_on u ''username'' (VStr username) g1)"
  have res: "create_user_node True g user_id username email = Inr ?g'"
    by (simp add: create_user_node_def m)
  have sub: "node_ref ` set (match_nodes g1 User user_id) \<subseteq> set u"
    by (rule merge_node_bound(1) [OF m])
  have ms: "match_nodes ?g' User user_id =
      map (?f ''email'' (VStr email)) (map (?f ''username'' (VStr username)) (match_nodes g1 User user_id))"
    by (simp add: match_nodes_set_on)
  have len: "length (match_nodes ?g' User user_id) = max 1 (length (match_nodes g User user_id))"
    by (simp add: ms merge_node_bound(2) [OF m])
  have vals: "prop_of n ''username'' = VStr username \<and> prop_of n ''email'' = VStr email"
    if "n \<in> set (match_nodes ?g' User user_id)" for n
  proof -
    from that obtain n0 where n0: "n0 \<in> set (match_nodes g1 User user_id)"
      and n: "n = ?f ''email'' (VStr email) (?f ''username'' (VStr username) n0)"
      unfolding ms by auto
    from n0 sub have "node_ref n0 \<in> set u" by blast
    with n have "n = set_prop ''email'' (VStr email) (set_prop ''username'' (VStr username) n0)"
      by (simp add: node_ref_set_prop)
    then show ?thesis
      by (simp add: prop_set_prop_same prop_set_prop_other)
  qed
  have rels: "relationships ?g' = relationships g"
    by (simp add: set_on_def merge_node_bound(3) [OF m])
  have frame: "length (nodes ?g') = length (nodes g) \<and> next_ref ?g' = next_ref g"
    if "match_nodes g User user_id \<noteq> []"
    using merge_node_cases [OF m] that by (auto simp: set_on_def)
  from res len vals rels frame show ?thesis by blast
qed

text \<open>
  Claim C5. Propagating the same User node twice: starting from a graph with at most one
  User node of that id (none, before the first delivery), both runs of
  \<open>create_user_node\<close> succeed, and afterwards exactly one User node has the id; it
  carries the username and email of the second delivery. The second delivery creates no
  node and no relationship.
\<close>

theorem create_user_node_idempotent:
  assumes "length (match_nodes g User user_id) \<le> 1"
  shows "\<exists>g1 g2 n.
      create_user_node True g user_id username1 email1 = Inr g1 \<and>
      create_user_node True g1 user_id username2 email2 = Inr g2 \<and>
      match_nodes g2 User user_id = [n] \<and>
      prop_of n ''username'' = VStr username2 \<and> prop_of n ''email'' = VStr email2 \<and>
      length (nodes g2) = length (nodes g1) \<and> next_ref g2 = next_ref g1 \<and>
      relationships g2 = relationships g1"
proof -
  obtain g1 where g1: "create_user_node True g user_id username1 email1 = Inr g1"
    and l1: "length (match_nodes g1 User user_id) = max 1 (length (match_nodes g User user_id))"
    using create_user_node_result [of g user_id username1 email1] by blast
  from l1 assms have one: "length (match_nodes g1 User user_id) = 1" by simp
  then have ne: "match_nodes g1 User user_id \<noteq> []" by auto
  obtain g2 where g2: "create_user_node True g1 user_id username2 email2 = Inr g2"
    and l2: "length (match_nodes g2 User user_id) = max 1 (length (match_nodes g1 User user_id))"
    and v2: "\<forall>n \<in> set (match_nodes g2 User user_id).
        prop_of n ''username'' = VStr username2 \<and> prop_of n ''email'' = VStr email2"
    and r2: "relationships g2 = relationships g1"
    and f2: "match_nodes g1 User user_id \<noteq> [] \<longrightarrow>
        length (nodes g2) = length (nodes g1) \<and> next_ref g2 = next_ref g1"
    using create_user_node_result [of g1 user_id username2 email2] by blast
  from l2 one have "length (match_nodes g2 User user_id) = 1" by simp
  then obtain n where n: "match_nodes g2 User user_id = [n]"
    by (cases "match_nodes g2 User user_id") auto
  with v2 have "prop_of n ''username'' = VStr username2 \<and> prop_of n ''email'' = VStr email2"
    by simp
  with g1 g2 n r2 f2 ne show ?thesis by blast
qed

theorem create_user_node_idempotent_witness:
  "length (match_nodes empty_graph User 7) \<le> 1 \<and>
   (\<exists>g1 g2 n.
      create_user_node True empty_graph 7 ''alice'' ''a@x.org'' = Inr g1 \<and>
      create_user_node True g1 7 ''alice2'' ''b@x.org'' = Inr g2 \<and>
      match_nodes g2 User 7 = [n] \<and>
      prop_of n ''username'' = VStr ''alice2'' \<and> prop_of n ''email'' = VStr ''b@x.org'' \<and>
      length (nodes g2) = length (nodes g1) \<and> next_ref g2 = next_ref g1 \<and>
      relationships g2 = relationships g1)"
proof -
  have h: "length (match_nodes empty_graph User 7) \<le> 1"
    by (simp add: match_nodes_def empty_graph_def)
  from h create_user_node_idempotent [OF h, of "''alice''" "''a@x.org''" "''alice2''" "''b@x.org''"]
  show ?thesis by blast
qed

lemma create_user_node_example:
  "create_user_node True empty_graph 7 ''alice'' ''a@x.org'' =
     Inr \<lparr>nodes = [\<lparr>node_ref = 0, node_label = User,
                    props = [(''id'', VInt 7), (''username'', VStr ''alice''), (''email'', VStr ''a@x.org'')]\<rparr>],
          relationships = [], next_ref = 1\<rparr>"
  by (simp add: create_user_node_def merge_node_def match_nodes_def empty_graph_def set_on_def set_prop_def)

section \<open>Registration\<close>

lemma find_some_if_exists: "\<exists>x \<in> set xs. P x \<Longrightarrow> \<exists>y. List.find P xs = Some y \<and> P y"
  by (induction xs) auto








section \<open>The sample run, evaluated\<close>

lemma sample_state_eq:
  "sample_state =
     \<lparr>db = \<lparr>users = [alice, bob], todos = [ship_release], categories = [],
             users_seq = 3, todos_seq = 2, categories_seq = 1\<rparr>,
      neo4j =
        \<lparr>nodes =
           [\<lparr>node_ref = 0, node_label = User,
              props = [(''id'', VInt 1), (''username'', VStr ''alice''),
                       (''email'', VStr ''alice@example.org'')]\<rparr>,
            \<lparr>node_ref = 1, node_label = User,
              props = [(''id'', VInt 2), (''username'', VStr ''bob''),
                       (''email'', VStr ''bob@example.org'')]\<rparr>,
            \<lparr>node_ref = 2, node_label = Todo,
              props = [(''id'', VInt 1), (''title'', VStr ''Ship release'')]\<rparr>],
         relationships = [\<lparr>rel_start = 1, rel_type = OWNS, rel_end = 2\<rparr>],
         next_ref = 3\<rparr>\<rparr>"
  by (simp add: sample_state_def api_create_todo_def create_todo_def insert_todo_def
      create_todo_node_def register_def get_user_by_username_def get_user_by_email_def
      create_user_def insert_user_def create_user_node_def merge_node_def match_nodes_def
      has_label_id_def prop_of_def set_on_def set_prop_def merge_relationship_def
      init_state_def empty_database_def empty_graph_def alice_def bob_def ship_release_def
      sample_hash_def Let_def)

section \<open>Ownership scoping\<close>

lemma get_todo_none_iff:
  "get_todo d todo_id user_id = None \<longleftrightarrow>
     \<not> (\<exists>t \<in> set (todos d). t_id t = todo_id \<and> t_user_id t = user_id)"
  by (auto simp: get_todo_def find_None_iff)

lemma not_found_outcomes:
  assumes "get_todo (db s) todo_id (u_id a) = None"
  shows "read_todo todo_id a s = (Inl (HTTPException 404 ''Todo not found''), s)"
    and "api_update_todo now todo_id upd a s = (Inl (HTTPException 404 ''Todo not found''), s)"
    and "api_delete_todo todo_id a s = (Inl (HTTPException 404 ''Todo not found''), s)"
  using assms
  by (simp_all add: read_todo_def api_update_todo_def update_todo_def api_delete_todo_def delete_todo_def)

lemma other_owner_hidden:
  assumes "distinct (map t_id (todos d))" and "t \<in> set (todos d)"
    and "t_user_id t \<noteq> user_id"
  shows "get_todo d (t_id t) user_id = None"
proof -
  have "t' = t" if "t' \<in> set (todos d)" "t_id t' = t_id t" for t'
    using that assms(1,2) by (meson distinct_map inj_onD)
  with assms(3) show ?thesis
    unfolding get_todo_none_iff by blast
qed

lemma owner_finds:
  assumes "distinct (map t_id (todos d))" and "t \<in> set (todos d)"
  shows "get_todo d (t_id t) (t_user_id t) = Some t"
proof -
  have "t' = t" if "t' \<in> set (todos d)" "t_id t' = t_id t" for t'
    using that assms by (meson distinct_map inj_onD)
  moreover from assms(2) obtain y where "get_todo d (t_id t) (t_user_id t) = Some y"
      and "t_id y = t_id t \<and> t_user_id y = t_user_id t"
    unfolding get_todo_def
    using find_some_if_exists [of "todos d" "\<lambda>x. t_id x = t_id t \<and> t_user_id x = t_user_id t"]
    by blast
  moreover from this have "y \<in> set (todos d)"
    by (auto simp: get_todo_def find_Some_iff)
  ultimately show ?thesis by auto
qed

text \<open>
  Claim C2. Let the todos table hold a todo \<open>t\<close> owned by user \<open>b\<close> (ids identify rows),
  and let \<open>a\<close> be another user. Then \<open>read_todo\<close>, \<open>api_update_todo\<close> and
  \<open>api_delete_todo\<close>, called by \<open>a\<close> with the id of \<open>t\<close>, each raise the 404
  ``Todo not found'' and leave the state as it was; and in any state \<open>s0\<close> that has no
  todo of that id at all they raise the very same error. The response to \<open>a\<close> is
  therefore the same value in both situations. The owner \<open>b\<close> does read the todo.
\<close>

theorem foreign_todo_not_found:
  assumes "distinct (map t_id (todos (db s)))"
    and "t \<in> set (todos (db s))" and "t_user_id t = u_id (b :: user)" and "u_id a \<noteq> u_id b"
    and "\<forall>t0 \<in> set (todos (db s0)). t_id t0 \<noteq> t_id t"
  shows "read_todo (t_id t) a s = (Inl (HTTPException 404 ''Todo not found''), s) \<and>
         api_update_todo now (t_id t) upd a s = (Inl (HTTPException 404 ''Todo not found''), s) \<and>
         api_delete_todo (t_id t) a s = (Inl (HTTPException 404 ''Todo not found''), s) \<and>
         read_todo (t_id t) a s0 = (Inl (HTTPException 404 ''Todo not found''), s0) \<and>
         api_update_todo now (t_id t) upd a s0 = (Inl (HTTPException 404 ''Todo not found''), s0) \<and>
         api_delete_todo (t_id t) a s0 = (Inl (HTTPException 404 ''Todo not found''), s0) \<and>
         read_todo (t_id t) b s = (Inr t, s)"
proof -
  from assms(3,4) have "t_user_id t \<noteq> u_id a" by simp
  with assms(1,2) have hidden: "get_todo (db s) (t_id t) (u_id a) = None"
    by (rule other_owner_hidden)
  from assms(5) have absent: "get_todo (db s0) (t_id t) (u_id a) = None"
    unfolding get_todo_none_iff by blast
  from owner_finds [OF assms(1,2)] assms(3) have "read_todo (t_id t) b s = (Inr t, s)"
    by (simp add: read_todo_def)
  with not_found_outcomes [OF hidden] not_found_outcomes [OF absent]
  show ?thesis by blast
qed

theorem foreign_todo_not_found_witness:
  "distinct (map t_id (todos (db sample_state))) \<and>
   ship_release \<in> set (todos (db sample_state)) \<and>
   t_user_id ship_release = u_id bob \<and> u_id alice \<noteq> u_id bob \<and>
   todos (db init_state) = [] \<and>
   read_todo 1 alice sample_state = (Inl (HTTPException 404 ''Todo not found''), sample_state) \<and>
   api_update_todo 300 1
       \<lparr>tu_title = Some (Some ''Mine now''), tu_description = None, tu_completed = None,
          tu_priority = None, tu_due_date = None\<rparr> alice sample_state =
     (Inl (HTTPException 404 ''Todo not found''), sample_state) \<and>
   api_delete_todo 1 alice sample_state = (Inl (HTTPException 404 ''Todo not found''), sample_state) \<and>
   read_todo 1 alice init_state = (Inl (HTTPException 404 ''Todo not found''), init_state) \<and>
   api_update_todo 300 1
       \<lparr>tu_title = Some (Some ''Mine now''), tu_description = None, tu_completed = None,
          tu_priority = None, tu_due_date = None\<rparr> alice init_state =
     (Inl (HTTPException 404 ''Todo not found''), init_state) \<and>
   api_delete_todo 1 alice init_state = (Inl (HTTPException 404 ''Todo not found''), init_state) \<and>
   read_todo 1 bob sample_state = (Inr ship_release, sample_state)"
proof -
  have pk: "distinct (map t_id (todos (db sample_state)))"
    and stored: "ship_release \<in> set (todos (db sample_state))"
    by (simp_all add: sample_state_eq)
  have owner: "t_user_id ship_release = u_id bob" and other: "u_id alice \<noteq> u_id bob"
    by (simp_all add: ship_release_def alice_def bob_def)
  have empty: "todos (db init_state) = []"
    by (simp add: init_state_def empty_database_def)
  then have absent: "\<forall>t0 \<in> set (todos (db init_state)). t_id t0 \<noteq> t_id ship_release"
    by simp
  have id: "t_id ship_release = 1" by (simp add: ship_release_def)
  from foreign_todo_not_found [OF pk stored owner other absent, unfolded id]
    pk stored owner other empty
  show ?thesis by blast
qed

section \<open>Looking a todo up\<close>

lemma get_todo_SomeD:
  assumes "get_todo d todo_id user_id = Some t"
  shows "t \<in> set (todos d)" and "t_id t = todo_id" and "t_user_id t = user_id"
  using assms by (auto simp: get_todo_def find_Some_iff)

section \<open>Partial update\<close>

text \<open>No item of an update touches the id, the owner or the timestamps.\<close>

lemma setattr_frame:
  "t_id (setattr t i) = t_id t \<and> t_user_id (setattr t i) = t_user_id t \<and>
   t_created_at (setattr t i) = t_created_at t \<and> t_updated_at (setattr t i) = t_updated_at t"
  by (cases i) simp_all

lemma foldl_setattr_frame:
  "t_id (foldl setattr t items) = t_id t \<and> t_user_id (foldl setattr t items) = t_user_id t \<and>
   t_created_at (foldl setattr t items) = t_created_at t \<and>
   t_updated_at (foldl setattr t items) = t_updated_at t"
proof (induction items arbitrary: t)
  case Nil
  show ?case by simp
next
  case (Cons i items)
  from Cons.IH [of "setattr t i"] setattr_frame [of t i] show ?case by simp
qed


lemma find_map_replace:
  assumes "List.find P xs = Some t" and "P row"
  shows "List.find P (map (\<lambda>r. if k r = k t then row else r) xs) = Some row"
  using assms
proof (induction xs)
  case Nil
  then show ?case by simp
next
  case (Cons x xs)
  then show ?case by (cases "P x") auto
qed

text \<open>What \<open>update_todo\<close> does to a todo that the lookup finds.\<close>

lemma update_todo_found:
  assumes "get_todo (db s) todo_id user_id = Some t"
  shows "update_todo now todo_id u user_id s =
     (let obj = foldl setattr t (dict_exclude_unset u) in
      if obj = t then (Inr (Some t), s)
      else if t_title obj = None then (Inl IntegrityError, s)
      else (Inr (Some (obj\<lparr>t_updated_at := Some now\<rparr>)),
            s\<lparr>db := (db s)\<lparr>todos := map (\<lambda>r. if t_id r = t_id t then obj\<lparr>t_updated_at := Some now\<rparr> else r)
                                       (todos (db s))\<rparr>\<rparr>))"
  by (simp add: update_todo_def assms flush_todo_def Let_def)

lemma update_todo_stored:
  assumes "get_todo (db s) todo_id user_id = Some t"
    and "update_todo now todo_id u user_id s = (Inr (Some t'), s')"
  shows "get_todo (db s') todo_id user_id = Some t' \<and> neo4j s' = neo4j s \<and>
         t_id t' = t_id t \<and> t_user_id t' = t_user_id t \<and> t_created_at t' = t_created_at t"
proof -
  let ?obj = "foldl setattr t (dict_exclude_unset u)"
  let ?row = "?obj\<lparr>t_updated_at := Some now\<rparr>"
  note t = get_todo_SomeD [OF assms(1)]
  note frame = foldl_setattr_frame [of t "dict_exclude_unset u"]
  show ?thesis
  proof (cases "?obj = t")
    case True
    with assms show ?thesis by (simp add: update_todo_found Let_def)
  next
    case False
    with assms(2) have t': "t' = ?row"
      and s': "s' = s\<lparr>db := (db s)\<lparr>todos := map (\<lambda>r. if t_id r = t_id t then ?row else r) (todos (db s))\<rparr>\<rparr>"
      by (auto simp: update_todo_found [OF assms(1)] Let_def split: if_splits)
    have "t_id ?row = todo_id \<and> t_user_id ?row = user_id"
      using frame t by simp
    with assms(1) have "get_todo (db s') todo_id user_id = Some ?row"
      unfolding get_todo_def s'
      using find_map_replace [of "\<lambda>t. t_id t = todo_id \<and> t_user_id t = user_id" "todos (db s)" t ?row t_id]
      by simp
    with frame show ?thesis by (simp add: t' s')
  qed
qed


lemma sample_owned: "get_todo (db sample_state) 1 2 = Some ship_release"
  by (simp add: sample_state_eq get_todo_def ship_release_def)



text \<open>
  Claim C10. For a todo \<open>t\<close> that the user owns, \<open>update_todo\<close> either returns a
  todo, and then this todo, which is the stored one, has the id, the owner and the
  creation time of \<open>t\<close>; or it raises \<open>IntegrityError\<close>, returns no todo and leaves the
  state as it was. It never answers that the todo is missing.
\<close>

theorem update_todo_identity:
  assumes "get_todo (db s) todo_id user_id = Some t"
  shows "(\<exists>t' s'. update_todo now todo_id u user_id s = (Inr (Some t'), s') \<and>
            get_todo (db s') todo_id user_id = Some t' \<and>
            t_id t' = t_id t \<and> t_user_id t' = t_user_id t \<and> t_created_at t' = t_created_at t \<and>
            t_id t' = todo_id \<and> t_user_id t' = user_id) \<or>
         update_todo now todo_id u user_id s = (Inl IntegrityError, s)"
proof (cases "update_todo now todo_id u user_id s = (Inl IntegrityError, s)")
  case True
  then show ?thesis ..
next
  case False
  then obtain t' s' where res: "update_todo now todo_id u user_id s = (Inr (Some t'), s')"
    by (auto simp: update_todo_found [OF assms] Let_def split: if_splits)
  from update_todo_stored [OF assms res] get_todo_SomeD [OF assms] res
  show ?thesis by auto
qed

theorem update_todo_identity_witness:
  "get_todo (db sample_state) 1 2 = Some ship_release \<and>
   (\<exists>t' s'. update_todo 300 1
          \<lparr>tu_title = Some (Some ''Ship it''), tu_description = Some (Some ''today''),
             tu_completed = Some (Some True), tu_priority = Some (Some ''high''),
             tu_due_date = Some (Some 400)\<rparr> 2 sample_state = (Inr (Some t'), s') \<and>
      t_title t' = Some ''Ship it'' \<and> t_id t' = 1 \<and> t_user_id t' = 2 \<and> t_created_at t' = 200)"
proof -
  let ?all = "\<lparr>tu_title = Some (Some ''Ship it''), tu_description = Some (Some ''today''),
             tu_completed = Some (Some True), tu_priority = Some (Some ''high''),
             tu_due_date = Some (Some 400)\<rparr>"
  have ok: "update_todo 300 1 ?all 2 sample_state \<noteq> (Inl IntegrityError, sample_state)"
    by (simp add: update_todo_found [OF sample_owned] dict_exclude_unset_def ship_release_def Let_def)
  have title: "t_title t' = Some ''Ship it''"
    if "update_todo 300 1 ?all 2 sample_state = (Inr (Some t'), s')" for t' s'
    using that
    by (auto simp: update_todo_found [OF sample_owned] dict_exclude_unset_def ship_release_def Let_def
        split: if_splits)
  from update_todo_identity [OF sample_owned, of 300 ?all] ok title
  have "\<exists>t' s'. update_todo 300 1 ?all 2 sample_state = (Inr (Some t'), s') \<and>
      t_title t' = Some ''Ship it'' \<and> t_id t' = 1 \<and> t_user_id t' = 2 \<and> t_created_at t' = 200"
    by (auto simp: ship_release_def)
  with sample_owned show ?thesis by blast
qed

section \<open>Propagation of a todo\<close>

lemma fold_merge_relationship_nodes:
  "nodes (fold (merge_relationship r) rows g) = nodes g \<and>
   next_ref (fold (merge_relationship r) rows g) = next_ref g"
  by (induction rows arbitrary: g) (simp_all add: merge_relationship_def)

lemma fold_merge_relationship_set:
  "set (relationships (fold (merge_relationship r) rows g)) =
     set (relationships g) \<union> (\<lambda>p. \<lparr>rel_start = fst p, rel_type = r, rel_end = snd p\<rparr>) ` set rows"
proof (induction rows arbitrary: g)
  case Nil
  show ?case by simp
next
  case (Cons p rows)
  have "\<lparr>rel_start = fst p, rel_type = r, rel_end = snd p\<rparr> \<in> set (relationships g)"
    if "x \<in> set (relationships g)" "rel_start x = fst p" "rel_type x = r" "rel_end x = snd p" for x
  proof -
    from that(2-4) have "x = \<lparr>rel_start = fst p, rel_type = r, rel_end = snd p\<rparr>"
      by (cases x) simp
    with that(1) show ?thesis by simp
  qed
  then have "set (relationships (merge_relationship r p g)) =
      insert \<lparr>rel_start = fst p, rel_type = r, rel_end = snd p\<rparr> (set (relationships g))"
    by (auto simp: merge_relationship_def)
  with Cons.IH [of "merge_relationship r p g"] show ?case by simp
qed

lemma fold_merge_relationship_types:
  assumes "x \<in> set (relationships (fold (merge_relationship r) rows g))"
  shows "x \<in> set (relationships g) \<or> rel_type x = r"
  using assms unfolding fold_merge_relationship_set by auto

lemma match_nodes_fold [simp]:
  "match_nodes (fold (merge_relationship r) rows g) l i = match_nodes g l i"
  by (simp add: match_nodes_def fold_merge_relationship_nodes)

lemma match_nodes_other_label:
  assumes "merge_node l i g = (refs, g1)" and "l' \<noteq> l"
  shows "match_nodes g1 l' i' = match_nodes g l' i'"
  using merge_node_cases [OF assms(1)] assms(2)
  by (auto simp: match_nodes_def has_label_id_def)

lemma node_refs_set_on:
  "k \<noteq> ''id'' \<Longrightarrow> map node_ref (match_nodes (set_on refs k v g) l i) = map node_ref (match_nodes g l i)"
  by (simp add: match_nodes_set_on comp_def node_ref_set_prop if_distrib [of node_ref] cong: if_cong)

text \<open>After \<^verbatim>\<open>MERGE\<close> and \<^verbatim>\<open>SET\<close>, some node matches and each one that does carries the value.\<close>

lemma merge_then_set:
  assumes "merge_node l i g = (refs, g1)" and "k \<noteq> ''id''" and "v \<noteq> VNull"
  shows "match_nodes (set_on refs k v g1) l i \<noteq> []"
    and "\<forall>n \<in> set (match_nodes (set_on refs k v g1) l i). prop_of n k = v \<and> node_ref n \<in> set refs"
proof -
  have len: "length (match_nodes (set_on refs k v g1) l i) = max 1 (length (match_nodes g l i))"
    by (simp add: match_nodes_set_on [OF assms(2)] merge_node_bound(2) [OF assms(1)])
  then show "match_nodes (set_on refs k v g1) l i \<noteq> []" by auto
  show "\<forall>n \<in> set (match_nodes (set_on refs k v g1) l i). prop_of n k = v \<and> node_ref n \<in> set refs"
  proof
    fix n assume "n \<in> set (match_nodes (set_on refs k v g1) l i)"
    then obtain n0 where n0: "n0 \<in> set (match_nodes g1 l i)"
      and n: "n = (if node_ref n0 \<in> set refs then set_prop k v n0 else n0)"
      unfolding match_nodes_set_on [OF assms(2)] by auto
    from n0 merge_node_bound(1) [OF assms(1)] have "node_ref n0 \<in> set refs" by blast
    with n assms(3) show "prop_of n k = v \<and> node_ref n \<in> set refs"
      by (simp add: prop_set_prop_same node_ref_set_prop)
  qed
qed

lemma match_nodes_subset: "set (match_nodes g l i) \<subseteq> set (nodes g)"
  by (simp add: match_nodes_def)

text \<open>What one run of the todo statement leaves.\<close>

lemma create_todo_node_result:
  "\<exists>g'. create_todo_node True g todo_id (Some title) user_id = Inr g' \<and>
     match_nodes g' Todo todo_id \<noteq> [] \<and>
     (\<forall>n \<in> set (match_nodes g' Todo todo_id).
        prop_of n ''title'' = VStr title \<and>
        (\<forall>u \<in> set (match_nodes g' User user_id). owns g' u n)) \<and>
     map node_ref (match_nodes g' User user_id) = map node_ref (match_nodes g User user_id) \<and>
     (match_nodes g User user_id = [] \<longrightarrow> relationships g' = relationships g) \<and>
     (\<forall>x \<in> set (relationships g'). x \<in> set (relationships g) \<or> rel_type x = OWNS)"
proof -
  obtain t g1 where m: "merge_node Todo todo_id g = (t, g1)"
    by (cases "merge_node Todo todo_id g")
  let ?g2 = "set_on t ''title'' (VStr title) g1"
  let ?rows = "[(node_ref u, t'). t' \<leftarrow> t, u \<leftarrow> match_nodes ?g2 User user_id]"
  let ?g' = "fold (merge_relationship OWNS) ?rows ?g2"
  have res: "create_todo_node True g todo_id (Some title) user_id = Inr ?g'"
    by (simp add: create_todo_node_def m Let_def)
  note ms = merge_then_set [OF m, of "''title''" "VStr title"]
  have nonempty: "match_nodes ?g' Todo todo_id \<noteq> []"
    using ms(1) by simp
  have rels2: "relationships ?g2 = relationships g"
    by (simp add: set_on_def merge_node_bound(3) [OF m])
  have users: "map node_ref (match_nodes ?g' User user_id) = map node_ref (match_nodes g User user_id)"
    by (simp add: node_refs_set_on match_nodes_other_label [OF m])
  have each: "prop_of n ''title'' = VStr title \<and> (\<forall>u \<in> set (match_nodes ?g' User user_id). owns ?g' u n)"
    if n: "n \<in> set (match_nodes ?g' Todo todo_id)" for n
  proof -
    from n ms(2) have title: "prop_of n ''title'' = VStr title" and bound: "node_ref n \<in> set t"
      by simp_all
    have "owns ?g' u n" if u: "u \<in> set (match_nodes ?g' User user_id)" for u
    proof -
      from u bound have "(node_ref u, node_ref n) \<in> set ?rows" by auto
      then have "\<lparr>rel_start = node_ref u, rel_type = OWNS, rel_end = node_ref n\<rparr>
          \<in> set (relationships ?g')"
        unfolding fold_merge_relationship_set by force
      moreover from u n have "u \<in> set (nodes ?g')" "n \<in> set (nodes ?g')"
        using match_nodes_subset by blast+
      moreover from u n have "node_label u = User" "node_label n = Todo"
        by (simp_all add: match_nodes_def has_label_id_def)
      ultimately show ?thesis
        unfolding owns_def linked_def by force
    qed
    with title show ?thesis by blast
  qed
  have missing: "relationships ?g' = relationships g" if "match_nodes g User user_id = []"
  proof -
    from that users have "match_nodes ?g2 User user_id = []" by simp
    then have "?rows = []" by simp
    then have "?g' = ?g2" by (simp only: fold.simps id_apply)
    then show ?thesis by (simp only: rels2)
  qed
  have types: "x \<in> set (relationships g) \<or> rel_type x = OWNS" if "x \<in> set (relationships ?g')" for x
    using fold_merge_relationship_types [OF that] rels2 by simp
  from res nonempty each users missing types show ?thesis by blast
qed

lemma create_todo_cases:
  "create_todo up now todo user_id s =
     (if \<not> (\<exists>u \<in> set (users (db s)). u_id u = user_id) then (Inl IntegrityError, s)
      else
        let row = \<lparr>t_id = todos_seq (db s), t_title = Some (tc_title todo),
                   t_description = tc_description todo, t_completed = Some False,
                   t_priority = Some (tc_priority todo), t_created_at = now,
                   t_updated_at = None, t_due_date = tc_due_date todo, t_user_id = user_id\<rparr>;
            d = (db s)\<lparr>todos := todos (db s) @ [row], todos_seq := todos_seq (db s) + 1\<rparr>
        in if \<not> up then (Inl ServiceUnavailable, s\<lparr>db := d\<rparr>)
           else case create_todo_node True (neo4j s) (todos_seq (db s)) (Some (tc_title todo)) user_id of
                  Inl e \<Rightarrow> (Inl e, s\<lparr>db := d\<rparr>)
                | Inr g \<Rightarrow> (Inr row, s\<lparr>db := d, neo4j := g\<rparr>))"
  by (simp add: create_todo_def insert_todo_def Let_def create_todo_node_def)

text \<open>
  Claim C7. Whenever \<open>create_todo\<close> returns the new todo, the graph engine answered,
  the todo is stored, and the graph afterwards has a Todo node with the todo's id; every
  such node carries the title and is owned, through an \<open>OWNS\<close> relationship, by every
  User node with the user's id (these are the User nodes that were there before). When
  no User node has that id, the relationships are exactly those from before: no edge is
  created, and the call returns the todo all the same. The call does return the todo
  whenever the graph engine answers and the user is stored, whatever the graph holds.
\<close>

theorem create_todo_propagation:
  "(\<forall>t s'. create_todo up now todo user_id s = (Inr t, s') \<longrightarrow>
      up \<and> t \<in> set (todos (db s')) \<and> t_title t = Some (tc_title todo) \<and> t_user_id t = user_id \<and>
      match_nodes (neo4j s') Todo (t_id t) \<noteq> [] \<and>
      (\<forall>n \<in> set (match_nodes (neo4j s') Todo (t_id t)).
         prop_of n ''title'' = VStr (tc_title todo) \<and>
         (\<forall>u \<in> set (match_nodes (neo4j s') User user_id). owns (neo4j s') u n)) \<and>
      map node_ref (match_nodes (neo4j s') User user_id) =
        map node_ref (match_nodes (neo4j s) User user_id) \<and>
      (match_nodes (neo4j s) User user_id = [] \<longrightarrow>
         relationships (neo4j s') = relationships (neo4j s))) \<and>
   (up \<and> (\<exists>u \<in> set (users (db s)). u_id u = user_id) \<longrightarrow>
      (\<exists>t s'. create_todo up now todo user_id s = (Inr t, s')))"
proof -
  obtain g' where g': "create_todo_node True (neo4j s) (todos_seq (db s)) (Some (tc_title todo)) user_id = Inr g'"
    and nonempty: "match_nodes g' Todo (todos_seq (db s)) \<noteq> []"
    and each: "\<forall>n \<in> set (match_nodes g' Todo (todos_seq (db s))).
        prop_of n ''title'' = VStr (tc_title todo) \<and>
        (\<forall>u \<in> set (match_nodes g' User user_id). owns g' u n)"
    and users: "map node_ref (match_nodes g' User user_id) =
        map node_ref (match_nodes (neo4j s) User user_id)"
    and missing: "match_nodes (neo4j s) User user_id = [] \<longrightarrow> relationships g' = relationships (neo4j s)"
    using create_todo_node_result [of "neo4j s" "todos_seq (db s)" "tc_title todo" user_id] by blast
  have returned: "(\<forall>t s'. create_todo up now todo user_id s = (Inr t, s') \<longrightarrow>
      up \<and> t \<in> set (todos (db s')) \<and> t_title t = Some (tc_title todo) \<and> t_user_id t = user_id \<and>
      match_nodes (neo4j s') Todo (t_id t) \<noteq> [] \<and>
      (\<forall>n \<in> set (match_nodes (neo4j s') Todo (t_id t)).
         prop_of n ''title'' = VStr (tc_title todo) \<and>
         (\<forall>u \<in> set (match_nodes (neo4j s') User user_id). owns (neo4j s') u n)) \<and>
      map node_ref (match_nodes (neo4j s') User user_id) =
        map node_ref (match_nodes (neo4j s) User user_id) \<and>
      (match_nodes (neo4j s) User user_id = [] \<longrightarrow>
         relationships (neo4j s') = relationships (neo4j s)))"
  proof (intro allI impI)
    fix t s' assume "create_todo up now todo user_id s = (Inr t, s')"
    then have up: up and t: "t_id t = todos_seq (db s)" "t_title t = Some (tc_title todo)"
        "t_user_id t = user_id" "t \<in> set (todos (db s'))" and s': "neo4j s' = g'"
      by (auto simp: create_todo_cases g' Let_def split: if_splits)
    from up t s' nonempty each users missing
    show "up \<and> t \<in> set (todos (db s')) \<and> t_title t = Some (tc_title todo) \<and> t_user_id t = user_id \<and>
      match_nodes (neo4j s') Todo (t_id t) \<noteq> [] \<and>
      (\<forall>n \<in> set (match_nodes (neo4j s') Todo (t_id t)).
         prop_of n ''title'' = VStr (tc_title todo) \<and>
         (\<forall>u \<in> set (match_nodes (neo4j s') User user_id). owns (neo4j s') u n)) \<and>
      map node_ref (match_nodes (neo4j s') User user_id) =
        map node_ref (match_nodes (neo4j s) User user_id) \<and>
      (match_nodes (neo4j s) User user_id = [] \<longrightarrow>
         relationships (neo4j s') = relationships (neo4j s))"
      by simp
  qed
  have returns: "(up \<and> (\<exists>u \<in> set (users (db s)). u_id u = user_id) \<longrightarrow>
      (\<exists>t s'. create_todo up now todo user_id s = (Inr t, s')))"
    by (simp add: create_todo_cases g' Let_def)
  from returned returns show ?thesis by (rule conjI)
qed

lemmas graph_eval =
  merge_node_def match_nodes_def has_label_id_def prop_of_def set_on_def set_prop_def
  merge_relationship_def empty_graph_def Let_def

theorem create_todo_propagation_witness:
  "fst (create_todo True 300 write_report 1 sample_state) =
     Inr \<lparr>t_id = 2, t_title = Some ''Write report'', t_description = None,
           t_completed = Some False, t_priority = Some ''high'', t_created_at = 300,
           t_updated_at = None, t_due_date = Some 900, t_user_id = 1\<rparr> \<and>
   relationships (neo4j (snd (create_todo True 300 write_report 1 sample_state))) =
     [\<lparr>rel_start = 1, rel_type = OWNS, rel_end = 2\<rparr>, \<lparr>rel_start = 0, rel_type = OWNS, rel_end = 3\<rparr>] \<and>
   match_nodes (neo4j (sample_state\<lparr>neo4j := empty_graph\<rparr>)) User 1 = [] \<and>
   fst (create_todo True 300 write_report 1 (sample_state\<lparr>neo4j := empty_graph\<rparr>)) =
     Inr \<lparr>t_id = 2, t_title = Some ''Write report'', t_description = None,
           t_completed = Some False, t_priority = Some ''high'', t_created_at = 300,
           t_updated_at = None, t_due_date = Some 900, t_user_id = 1\<rparr> \<and>
   nodes (neo4j (snd (create_todo True 300 write_report 1 (sample_state\<lparr>neo4j := empty_graph\<rparr>)))) =
     [\<lparr>node_ref = 0, node_label = Todo, props = [(''id'', VInt 2), (''title'', VStr ''Write report'')]\<rparr>] \<and>
   relationships (neo4j (snd (create_todo True 300 write_report 1 (sample_state\<lparr>neo4j := empty_graph\<rparr>)))) = []"
proof -
  let ?row = "\<lparr>t_id = 2, t_title = Some ''Write report'', t_description = None,
           t_completed = Some False, t_priority = Some ''high'', t_created_at = 300,
           t_updated_at = None, t_due_date = Some 900, t_user_id = 1\<rparr>"
  let ?drift = "sample_state\<lparr>neo4j := empty_graph\<rparr>"
  let ?r1 = "create_todo True 300 write_report 1 sample_state"
  let ?r2 = "create_todo True 300 write_report 1 ?drift"
  have run1: "fst ?r1 = Inr ?row"
    and rels1: "relationships (neo4j (snd ?r1)) =
      [\<lparr>rel_start = 1, rel_type = OWNS, rel_end = 2\<rparr>, \<lparr>rel_start = 0, rel_type = OWNS, rel_end = 3\<rparr>]"
    by (simp_all add: create_todo_cases create_todo_node_def sample_state_eq write_report_def
        alice_def bob_def graph_eval)
  have run2: "fst ?r2 = Inr ?row"
    and nodes2: "nodes (neo4j (snd ?r2)) =
      [\<lparr>node_ref = 0, node_label = Todo, props = [(''id'', VInt 2), (''title'', VStr ''Write report'')]\<rparr>]"
    by (simp_all add: create_todo_cases create_todo_node_def sample_state_eq write_report_def
        alice_def bob_def graph_eval)
  have missing: "match_nodes (neo4j ?drift) User 1 = []"
    by (simp add: match_nodes_def empty_graph_def)
  from run2 have "?r2 = (Inr ?row, snd ?r2)" by (metis prod.collapse)
  with create_todo_propagation [of True 300 write_report 1 ?drift] missing
  have "relationships (neo4j (snd ?r2)) = relationships (neo4j ?drift)" by blast
  then have rels2: "relationships (neo4j (snd ?r2)) = []"
    by (simp add: empty_graph_def)
  from run1 rels1 missing run2 nodes2 rels2 show ?thesis by blast
qed

section \<open>Recommendations\<close>

lemma recommendation_rows_paths:
  assumes "p \<in> set (recommendation_rows g user_id)"
  shows "\<exists>u r1 t r2 c r3 other_todo r4 other_user.
      u \<in> set (match_nodes g User user_id) \<and>
      r1 \<in> set (rels_from g OWNS (node_ref u)) \<and> t \<in> set (node_at g (rel_end r1) Todo) \<and>
      r2 \<in> set (rels_from g BELONGS_TO (node_ref t)) \<and> c \<in> set (node_at g (rel_end r2) Category) \<and>
      r3 \<in> set (rels_to g BELONGS_TO (node_ref c)) \<and>
      other_todo \<in> set (node_at g (rel_start r3) Todo) \<and>
      r4 \<in> set (rels_to g OWNS (node_ref other_todo)) \<and>
      other_user \<in> set (node_at g (rel_start r4) User) \<and>
      prop_of other_user ''id'' \<noteq> VNull \<and> prop_of other_user ''id'' \<noteq> VInt user_id \<and>
      p = (prop_of other_todo ''title'', prop_of c ''name'')"
  using assms unfolding recommendation_rows_def
  by (auto split: if_splits) blast

lemma linked_from:
  assumes "r \<in> set (rels_from g ty (node_ref a))" and "b \<in> set (node_at g (rel_end r) l)"
    and "a \<in> set (nodes g)"
  shows "linked g ty a b \<and> node_label b = l"
  using assms unfolding linked_def rels_from_def node_at_def by auto

lemma linked_to:
  assumes "r \<in> set (rels_to g ty (node_ref b))" and "a \<in> set (node_at g (rel_start r) l)"
    and "b \<in> set (nodes g)"
  shows "linked g ty a b \<and> node_label a = l"
  using assms unfolding linked_def rels_to_def node_at_def by auto

lemma node_at_subset: "n \<in> set (node_at g r l) \<Longrightarrow> n \<in> set (nodes g)"
  by (simp add: node_at_def)

lemma recommendation_rows_qualify:
  assumes "p \<in> set (recommendation_rows g user_id)"
  shows "qualifies g user_id p"
proof -
  from recommendation_rows_paths [OF assms]
  obtain u r1 t r2 c r3 other_todo r4 other_user where
    u: "u \<in> set (match_nodes g User user_id)"
    and r1: "r1 \<in> set (rels_from g OWNS (node_ref u))" and t: "t \<in> set (node_at g (rel_end r1) Todo)"
    and r2: "r2 \<in> set (rels_from g BELONGS_TO (node_ref t))"
    and c: "c \<in> set (node_at g (rel_end r2) Category)"
    and r3: "r3 \<in> set (rels_to g BELONGS_TO (node_ref c))"
    and ot: "other_todo \<in> set (node_at g (rel_start r3) Todo)"
    and r4: "r4 \<in> set (rels_to g OWNS (node_ref other_todo))"
    and ou: "other_user \<in> set (node_at g (rel_start r4) User)"
    and other: "prop_of other_user ''id'' \<noteq> VInt user_id"
    and p: "p = (prop_of other_todo ''title'', prop_of c ''name'')"
    by blast
  from u have u': "u \<in> set (nodes g)" "node_label u = User" "prop_of u ''id'' = VInt user_id"
    by (simp_all add: match_nodes_def has_label_id_def)
  from linked_from [OF r1 t u'(1)] u'(2) have 1: "owns g u t"
    by (simp add: owns_def)
  from linked_from [OF r2 c node_at_subset [OF t]] 1 have 2: "belongs_to g t c"
    by (simp add: belongs_to_def owns_def)
  from linked_to [OF r3 ot node_at_subset [OF c]] 2 have 3: "belongs_to g other_todo c"
    by (simp add: belongs_to_def)
  from linked_to [OF r4 ou node_at_subset [OF ot]] 3 have 4: "owns g other_user other_todo"
    by (simp add: owns_def belongs_to_def)
  from u'(3) 1 2 3 4 other p show ?thesis
    unfolding qualifies_def by blast
qed

text \<open>
  Claim C3. When the graph engine answers, \<open>get_todo_recommendations\<close> returns a list of
  at most five pairs; each pair is the title of a todo and the name of a category such
  that the todo is owned by a User node whose id is not the given one and belongs to the
  category, to which a todo owned by a User node of the given id belongs. The list is
  empty when no todo of the user belongs to a category, and when no todo of another user
  belongs to a category of a todo of the user.
\<close>

theorem get_todo_recommendations_sound:
  "\<exists>rows. get_todo_recommendations True g user_id = Inr rows \<and> length rows \<le> 5 \<and>
     (\<forall>p \<in> set rows. qualifies g user_id p) \<and>
     ((\<forall>u t c. prop_of u ''id'' = VInt user_id \<and> owns g u t \<longrightarrow> \<not> belongs_to g t c) \<longrightarrow> rows = []) \<and>
     ((\<forall>u t c other_todo other_user.
         prop_of u ''id'' = VInt user_id \<and> owns g u t \<and> belongs_to g t c \<and>
         belongs_to g other_todo c \<and> owns g other_user other_todo \<longrightarrow>
         prop_of other_user ''id'' = VInt user_id) \<longrightarrow> rows = [])"
proof -
  let ?rows = "take 5 (recommendation_rows g user_id)"
  have res: "get_todo_recommendations True g user_id = Inr ?rows"
    by (simp add: get_todo_recommendations_def)
  have len: "length ?rows \<le> 5" by simp
  have sound: "\<forall>p \<in> set ?rows. qualifies g user_id p"
    using recommendation_rows_qualify [of _ g user_id] by (blast dest: in_set_takeD)
  have none: "?rows = []" if "\<not> (\<exists>p. qualifies g user_id p)"
  proof (cases ?rows)
    case Nil
    then show ?thesis .
  next
    case (Cons p ps)
    then have "p \<in> set ?rows" by simp
    with sound that show ?thesis by blast
  qed
  have uncategorized: "?rows = []"
    if "\<forall>u t c. prop_of u ''id'' = VInt user_id \<and> owns g u t \<longrightarrow> \<not> belongs_to g t c"
    using that by (intro none) (auto simp: qualifies_def)
  have unshared: "?rows = []"
    if "\<forall>u t c other_todo other_user.
         prop_of u ''id'' = VInt user_id \<and> owns g u t \<and> belongs_to g t c \<and>
         belongs_to g other_todo c \<and> owns g other_user other_todo \<longrightarrow>
         prop_of other_user ''id'' = VInt user_id"
    using that by (intro none) (auto simp: qualifies_def)
  from res len sound uncategorized unshared show ?thesis by blast
qed

text \<open>The shared graph is what the client's methods build on top of the sample run.\<close>

lemma shared_graph_built:
  "\<exists>g1 g2 g3.
     create_todo_node True (neo4j sample_state) 2 (Some ''Write report'') 1 = Inr g1 \<and>
     create_category_node True g1 1 ''Work'' 1 = Inr g2 \<and>
     link_todo_to_category True g2 2 1 = Inr g3 \<and>
     link_todo_to_category True g3 1 1 = Inr shared_graph"
  by (simp add: sample_state_eq create_todo_node_def create_category_node_def
      link_todo_to_category_def shared_graph_def graph_eval)

theorem get_todo_recommendations_sound_witness:
  "get_todo_recommendations True shared_graph 1 = Inr [(VStr ''Ship release'', VStr ''Work'')] \<and>
   qualifies shared_graph 1 (VStr ''Ship release'', VStr ''Work'') \<and>
   get_todo_recommendations True shared_graph 2 = Inr [(VStr ''Write report'', VStr ''Work'')] \<and>
   relationships (neo4j sample_state) = [\<lparr>rel_start = 1, rel_type = OWNS, rel_end = 2\<rparr>] \<and>
   get_todo_recommendations True (neo4j sample_state) 2 = Inr []"
proof -
  have alice: "get_todo_recommendations True shared_graph 1 = Inr [(VStr ''Ship release'', VStr ''Work'')]"
    and bob: "get_todo_recommendations True shared_graph 2 = Inr [(VStr ''Write report'', VStr ''Work'')]"
    by (simp_all add: get_todo_recommendations_def recommendation_rows_def shared_graph_def
        node_at_def rels_from_def rels_to_def match_nodes_def has_label_id_def prop_of_def)
  from get_todo_recommendations_sound [of shared_graph 1] alice
  have q: "qualifies shared_graph 1 (VStr ''Ship release'', VStr ''Work'')" by auto
  have rels: "relationships (neo4j sample_state) = [\<lparr>rel_start = 1, rel_type = OWNS, rel_end = 2\<rparr>]"
    by (simp add: sample_state_eq)
  then have "\<forall>u t c. prop_of u ''id'' = VInt 2 \<and> owns (neo4j sample_state) u t \<longrightarrow>
      \<not> belongs_to (neo4j sample_state) t c"
    by (simp add: belongs_to_def linked_def)
  with get_todo_recommendations_sound [of "neo4j sample_state" 2]
  have none: "get_todo_recommendations True (neo4j sample_state) 2 = Inr []" by auto
  from alice q bob rels none show ?thesis by blast
qed

section \<open>No todo is ever linked to a category\<close>

lemma create_user_node_relationships:
  assumes "create_user_node up g user_id username email = Inr g'"
  shows "relationships g' = relationships g"
proof -
  from assms have up by (auto simp: create_user_node_def split: if_splits)
  with assms create_user_node_result [of g user_id username email] show ?thesis by auto
qed

lemma merge_set_fold_relationships:
  assumes "merge_node l i g = (refs, g1)"
    and "x \<in> set (relationships (fold (merge_relationship r) rows (set_on refs k v g1)))"
  shows "x \<in> set (relationships g) \<or> rel_type x = r"
  using fold_merge_relationship_types [OF assms(2)] merge_node_bound(3) [OF assms(1)]
  by (simp add: set_on_def)

lemma create_todo_node_relationships:
  assumes "create_todo_node up g todo_id title user_id = Inr g'"
    and "x \<in> set (relationships g')"
  shows "x \<in> set (relationships g) \<or> rel_type x = OWNS"
proof -
  obtain t g1 where m: "merge_node Todo todo_id g = (t, g1)"
    by (cases "merge_node Todo todo_id g")
  from assms show ?thesis
    by (auto simp: create_todo_node_def m Let_def split: if_splits
        dest: merge_set_fold_relationships [OF m])
qed

lemma create_category_node_relationships:
  assumes "create_category_node up g category_id name user_id = Inr g'"
    and "x \<in> set (relationships g')"
  shows "x \<in> set (relationships g) \<or> rel_type x = CREATED"
proof -
  obtain c g1 where m: "merge_node Category category_id g = (c, g1)"
    by (cases "merge_node Category category_id g")
  from assms show ?thesis
    by (auto simp: create_category_node_def m Let_def split: if_splits
        dest: merge_set_fold_relationships [OF m])
qed

text \<open>Each writing endpoint keeps the graph free of \<open>BELONGS_TO\<close> relationships.\<close>

lemma create_user_no_belongs_to:
  "no_belongs_to (neo4j s) \<Longrightarrow> no_belongs_to (neo4j (snd (create_user h up now user s)))"
  by (auto simp: create_user_def Let_def no_belongs_to_def split: sum.splits prod.splits
      dest: create_user_node_relationships)

lemma register_no_belongs_to:
  "no_belongs_to (neo4j s) \<Longrightarrow> no_belongs_to (neo4j (snd (register h up now user s)))"
  by (simp add: register_def create_user_no_belongs_to split: option.splits)

lemma create_todo_no_belongs_to:
  "no_belongs_to (neo4j s) \<Longrightarrow> no_belongs_to (neo4j (snd (create_todo up now todo user_id s)))"
  by (auto simp: create_todo_def no_belongs_to_def split: sum.splits prod.splits
      dest!: create_todo_node_relationships)

lemma create_category_no_belongs_to:
  "no_belongs_to (neo4j s) \<Longrightarrow> no_belongs_to (neo4j (snd (create_category up now category user_id s)))"
  by (auto simp: create_category_def no_belongs_to_def split: sum.splits prod.splits
      dest!: create_category_node_relationships)

lemma update_todo_graph: "neo4j (snd (update_todo now todo_id u user_id s)) = neo4j s"
  by (simp add: update_todo_def Let_def split: option.splits sum.splits prod.splits)

lemma api_update_todo_graph: "neo4j (snd (api_update_todo now todo_id u current_user s)) = neo4j s"
  using update_todo_graph [of now todo_id u "u_id current_user" s]
  by (auto simp: api_update_todo_def split: prod.splits sum.splits option.splits)

lemma api_delete_todo_graph: "neo4j (snd (api_delete_todo todo_id current_user s)) = neo4j s"
  by (simp add: api_delete_todo_def delete_todo_def split: option.splits)

lemma api_step_no_belongs_to:
  assumes "api_step s s'" and "no_belongs_to (neo4j s)"
  shows "no_belongs_to (neo4j s')"
  using assms
proof (cases rule: api_step.cases)
  case (step_register get_password_hash up now user)
  with assms(2) show ?thesis by (simp add: register_no_belongs_to)
next
  case (step_create_todo current_user up now todo)
  with assms(2) show ?thesis by (simp add: api_create_todo_def create_todo_no_belongs_to)
next
  case (step_update_todo current_user now todo_id todo_update)
  with assms(2) show ?thesis by (simp add: api_update_todo_graph)
next
  case (step_delete_todo current_user todo_id)
  with assms(2) show ?thesis by (simp add: api_delete_todo_graph)
next
  case (step_create_category current_user up now category)
  with assms(2) show ?thesis by (simp add: api_create_category_def create_category_no_belongs_to)
qed

lemma reachable_from_no_belongs_to:
  "reachable_from s s' \<Longrightarrow> no_belongs_to (neo4j s) \<Longrightarrow> no_belongs_to (neo4j s')"
  by (induction rule: reachable_from.induct) (auto intro: api_step_no_belongs_to)

lemma reachable_no_belongs_to: "reachable s \<Longrightarrow> no_belongs_to (neo4j s)"
  unfolding reachable_def
  by (erule reachable_from_no_belongs_to) (simp add: no_belongs_to_def init_state_def empty_graph_def)

lemma no_belongs_to_no_rows:
  assumes "no_belongs_to g"
  shows "recommendation_rows g user_id = []"
proof (cases "recommendation_rows g user_id")
  case Nil
  then show ?thesis .
next
  case (Cons p ps)
  then have "qualifies g user_id p"
    by (intro recommendation_rows_qualify) simp
  then obtain t c where "belongs_to g t c"
    unfolding qualifies_def by blast
  with assms show ?thesis
    by (auto simp: belongs_to_def linked_def no_belongs_to_def)
qed

text \<open>
  Claim C9. In every state that the service reaches from the empty stores through its
  endpoints, the graph has no \<open>BELONGS_TO\<close> relationship (no endpoint calls
  \<open>link_todo_to_category\<close>), and \<open>get_recommendations\<close> returns the empty list for
  every user whenever the graph engine answers (it raises when the engine does not).
\<close>

theorem reachable_recommendations_empty:
  assumes "reachable s"
  shows "no_belongs_to (neo4j s) \<and>
         get_recommendations up current_user s = (if up then Inr [] else Inl ServiceUnavailable)"
proof -
  from assms have "no_belongs_to (neo4j s)" by (rule reachable_no_belongs_to)
  then show ?thesis
    by (simp add: get_recommendations_def get_todo_recommendations_def no_belongs_to_no_rows)
qed

lemma reachable_sample_state: "reachable sample_state"
proof -
  let ?s1 = "snd (register sample_hash True 100
                  \<lparr>uc_username = ''alice'', uc_email = ''alice@example.org'',
                     uc_password = ''wonderland''\<rparr>
                  init_state)"
  let ?s2 = "snd (register sample_hash True 101
               \<lparr>uc_username = ''bob'', uc_email = ''bob@example.org'', uc_password = ''builder''\<rparr>
               ?s1)"
  have "reachable_from init_state ?s1"
    by (rule reachable_from_step [OF reachable_from_start step_register])
  then have "reachable_from init_state ?s2"
    by (rule reachable_from_step [OF _ step_register])
  moreover have "bob \<in> set (users (db ?s2))"
    by (simp add: register_def get_user_by_username_def get_user_by_email_def
      create_user_def insert_user_def create_user_node_def graph_eval
      init_state_def empty_database_def bob_def sample_hash_def)
  ultimately show ?thesis
    unfolding reachable_def sample_state_def
    by (intro reachable_from_step [OF _ step_create_todo])
qed

theorem reachable_recommendations_empty_witness:
  "reachable sample_state \<and>
   relationships (neo4j sample_state) = [\<lparr>rel_start = 1, rel_type = OWNS, rel_end = 2\<rparr>] \<and>
   get_recommendations True alice sample_state = Inr [] \<and>
   get_recommendations True bob sample_state = Inr []"
proof -
  from reachable_recommendations_empty [OF reachable_sample_state, of True]
  have "get_recommendations True alice sample_state = Inr []"
    and "get_recommendations True bob sample_state = Inr []" by simp_all
  moreover have "relationships (neo4j sample_state) = [\<lparr>rel_start = 1, rel_type = OWNS, rel_end = 2\<rparr>]"
    by (simp add: sample_state_eq)
  ultimately show ?thesis using reachable_sample_state by blast
qed

text \<open>With the relationships that no endpoint adds, the list is not empty.\<close>

lemma linked_recommendations_example:
  "get_recommendations True alice (sample_state\<lparr>neo4j := shared_graph\<rparr>) =
     Inr [(VStr ''Ship release'', VStr ''Work'')]"
  by (simp add: get_recommendations_def get_todo_recommendations_def recommendation_rows_def
      shared_graph_def alice_def node_at_def rels_from_def rels_to_def match_nodes_def
      has_label_id_def prop_of_def)

section \<open>A failed propagation\<close>

lemma find_snoc:
  "List.find P (xs @ [x]) =
     (case List.find P xs of Some y \<Rightarrow> Some y | None \<Rightarrow> if P x then Some x else None)"
  by (induction xs) simp_all

text \<open>What the three functions return when the graph engine does not answer.\<close>

lemma create_user_down:
  assumes "\<not> (\<exists>x \<in> set (users (db s)). u_username x = uc_username user \<or> u_email x = uc_email user)"
  shows "create_user h False now user s =
     (Inl ServiceUnavailable,
      s\<lparr>db := (db s)\<lparr>users := users (db s) @
                   [\<lparr>u_id = users_seq (db s), u_username = uc_username user,
                      u_email = uc_email user, u_hashed_password = h (uc_password user),
                      u_is_active = True, u_created_at = now\<rparr>],
                 users_seq := users_seq (db s) + 1\<rparr>\<rparr>)"
  using assms by (simp add: create_user_def insert_user_def create_user_node_def Let_def)

lemma create_todo_down:
  assumes "\<exists>x \<in> set (users (db s)). u_id x = user_id"
  shows "create_todo False now todo user_id s =
     (Inl ServiceUnavailable,
      s\<lparr>db := (db s)\<lparr>todos := todos (db s) @
                   [\<lparr>t_id = todos_seq (db s), t_title = Some (tc_title todo),
                      t_description = tc_description todo, t_completed = Some False,
                      t_priority = Some (tc_priority todo), t_created_at = now,
                      t_updated_at = None, t_due_date = tc_due_date todo, t_user_id = user_id\<rparr>],
                 todos_seq := todos_seq (db s) + 1\<rparr>\<rparr>)"
  using assms by (simp add: create_todo_cases Let_def)

lemma create_category_down:
  assumes "\<exists>x \<in> set (users (db s)). u_id x = user_id"
  shows "create_category False now category user_id s =
     (Inl ServiceUnavailable,
      s\<lparr>db := (db s)\<lparr>categories := categories (db s) @
                   [\<lparr>c_id = categories_seq (db s), c_name = cc_name category,
                      c_color = cc_color category, c_user_id = user_id, c_created_at = now\<rparr>],
                 categories_seq := categories_seq (db s) + 1\<rparr>\<rparr>)"
  using assms
  by (simp add: create_category_def insert_category_def create_category_node_def Let_def)

text \<open>
  Claim C1, as amended. When the graph engine does not answer, each of \<open>create_user\<close>,
  \<open>create_todo\<close> and \<open>create_category\<close> whose insert the relational store accepts
  raises \<open>ServiceUnavailable\<close> and returns no entity. The new row stays committed:
  the table is the old one with the row appended, and a later lookup finds the row. The
  other tables and the graph are as before.
\<close>

theorem propagation_failure_surfaces:
  "(\<not> (\<exists>x \<in> set (users (db s)). u_username x = uc_username user \<or> u_email x = uc_email user) \<longrightarrow>
      fst (create_user h False now user s) = Inl ServiceUnavailable \<and>
      (\<exists>u. users (db (snd (create_user h False now user s))) = users (db s) @ [u] \<and>
            u_username u = uc_username user \<and> u_email u = uc_email user \<and>
            get_user_by_username (db (snd (create_user h False now user s))) (uc_username user) = Some u) \<and>
      neo4j (snd (create_user h False now user s)) = neo4j s) \<and>
   ((\<exists>x \<in> set (users (db s)). u_id x = user_id) \<longrightarrow>
      fst (create_todo False now todo user_id s) = Inl ServiceUnavailable \<and>
      (\<exists>t. todos (db (snd (create_todo False now todo user_id s))) = todos (db s) @ [t] \<and>
            t_title t = Some (tc_title todo) \<and> t_user_id t = user_id) \<and>
      neo4j (snd (create_todo False now todo user_id s)) = neo4j s \<and>
      fst (create_category False now category user_id s) = Inl ServiceUnavailable \<and>
      (\<exists>c. categories (db (snd (create_category False now category user_id s))) =
              categories (db s) @ [c] \<and>
            c_name c = cc_name category \<and> c_user_id c = user_id) \<and>
      neo4j (snd (create_category False now category user_id s)) = neo4j s)"
proof (intro conjI impI)
  assume fresh: "\<not> (\<exists>x \<in> set (users (db s)). u_username x = uc_username user \<or> u_email x = uc_email user)"
  let ?u = "\<lparr>u_id = users_seq (db s), u_username = uc_username user,
              u_email = uc_email user, u_hashed_password = h (uc_password user),
              u_is_active = True, u_created_at = now\<rparr>"
  note r = create_user_down [OF fresh, of h now]
  show "fst (create_user h False now user s) = Inl ServiceUnavailable"
    and "neo4j (snd (create_user h False now user s)) = neo4j s"
    by (simp_all add: r)
  from fresh have "List.find (\<lambda>u. u_username u = uc_username user) (users (db s)) = None"
    by (auto simp: find_None_iff)
  then have "List.find (\<lambda>u. u_username u = uc_username user) (users (db s) @ [?u]) = Some ?u"
    by (simp add: find_snoc)
  then show "\<exists>u. users (db (snd (create_user h False now user s))) = users (db s) @ [u] \<and>
            u_username u = uc_username user \<and> u_email u = uc_email user \<and>
            get_user_by_username (db (snd (create_user h False now user s))) (uc_username user) = Some u"
    by (intro exI [of _ ?u]) (simp add: r get_user_by_username_def)
next
  assume owner: "\<exists>x \<in> set (users (db s)). u_id x = user_id"
  note t = create_todo_down [OF owner, of now todo]
  note c = create_category_down [OF owner, of now category]
  show "fst (create_todo False now todo user_id s) = Inl ServiceUnavailable"
    and "neo4j (snd (create_todo False now todo user_id s)) = neo4j s"
    and "\<exists>t. todos (db (snd (create_todo False now todo user_id s))) = todos (db s) @ [t] \<and>
            t_title t = Some (tc_title todo) \<and> t_user_id t = user_id"
    by (simp_all add: t)
  show "fst (create_category False now category user_id s) = Inl ServiceUnavailable"
    and "neo4j (snd (create_category False now category user_id s)) = neo4j s"
    and "\<exists>c. categories (db (snd (create_category False now category user_id s))) =
              categories (db s) @ [c] \<and>
            c_name c = cc_name category \<and> c_user_id c = user_id"
    by (simp_all add: c)
qed

text \<open>The endpoint passes the error on: the request fails although the row is stored.\<close>

lemma register_propagation_failure:
  assumes "\<not> (\<exists>x \<in> set (users (db s)). u_username x = uc_username user \<or> u_email x = uc_email user)"
  shows "register h False now user s = create_user h False now user s"
proof -
  from assms have "get_user_by_username (db s) (uc_username user) = None"
    and "get_user_by_email (db s) (uc_email user) = None"
    by (auto simp: get_user_by_username_def get_user_by_email_def find_None_iff)
  then show ?thesis by (simp add: register_def)
qed

theorem propagation_failure_surfaces_witness:
  "users (db init_state) = [] \<and>
   fst (create_user sample_hash False 100
       \<lparr>uc_username = ''alice'', uc_email = ''alice@example.org'', uc_password = ''wonderland''\<rparr>
       init_state) = Inl ServiceUnavailable \<and>
   users (db (snd (create_user sample_hash False 100
       \<lparr>uc_username = ''alice'', uc_email = ''alice@example.org'', uc_password = ''wonderland''\<rparr>
       init_state))) = [alice] \<and>
   alice \<in> set (users (db sample_state)) \<and> u_id alice = 1 \<and>
   fst (create_todo False 300 write_report 1 sample_state) = Inl ServiceUnavailable \<and>
   (\<exists>t. todos (db (snd (create_todo False 300 write_report 1 sample_state))) = [ship_release, t] \<and>
        t_title t = Some ''Write report'' \<and> t_user_id t = 1) \<and>
   neo4j (snd (create_todo False 300 write_report 1 sample_state)) = neo4j sample_state \<and>
   fst (create_category False 300 \<lparr>cc_name = ''Work'', cc_color = ''#3B82F6''\<rparr> 1 sample_state) =
     Inl ServiceUnavailable \<and>
   (\<exists>c. categories (db (snd (create_category False 300
           \<lparr>cc_name = ''Work'', cc_color = ''#3B82F6''\<rparr> 1 sample_state))) = [c] \<and>
        c_name c = ''Work'' \<and> c_user_id c = 1)"
proof -
  let ?alice = "\<lparr>uc_username = ''alice'', uc_email = ''alice@example.org'', uc_password = ''wonderland''\<rparr>"
  let ?work = "\<lparr>cc_name = ''Work'', cc_color = ''#3B82F6''\<rparr>"
  have empty: "users (db init_state) = []"
    by (simp add: init_state_def empty_database_def)
  then have fresh: "\<not> (\<exists>x \<in> set (users (db init_state)).
      u_username x = uc_username ?alice \<or> u_email x = uc_email ?alice)" by simp
  have stored: "alice \<in> set (users (db sample_state))" and id: "u_id alice = 1"
    by (simp_all add: sample_state_eq alice_def)
  then have owner: "\<exists>x \<in> set (users (db sample_state)). u_id x = 1" by blast
  have tables: "todos (db sample_state) = [ship_release]" "categories (db sample_state) = []"
    "tc_title write_report = ''Write report''"
    by (simp_all add: sample_state_eq write_report_def)
  from propagation_failure_surfaces [where s = init_state and user = ?alice and h = sample_hash and now = 100] fresh
  have user: "fst (create_user sample_hash False 100 ?alice init_state) = Inl ServiceUnavailable" by blast
  have row: "users (db (snd (create_user sample_hash False 100 ?alice init_state))) = [alice]"
    unfolding create_user_down [OF fresh]
    by (simp add: alice_def sample_hash_def init_state_def empty_database_def)
  from propagation_failure_surfaces [where s = sample_state and user_id = 1 and now = 300
      and todo = write_report and category = ?work]
    owner tables
  have rest: "fst (create_todo False 300 write_report 1 sample_state) = Inl ServiceUnavailable"
    "\<exists>t. todos (db (snd (create_todo False 300 write_report 1 sample_state))) = [ship_release, t] \<and>
        t_title t = Some ''Write report'' \<and> t_user_id t = 1"
    "neo4j (snd (create_todo False 300 write_report 1 sample_state)) = neo4j sample_state"
    "fst (create_category False 300 ?work 1 sample_state) = Inl ServiceUnavailable"
    "\<exists>c. categories (db (snd (create_category False 300 ?work 1 sample_state))) = [c] \<and>
        c_name c = ''Work'' \<and> c_user_id c = 1"
    by simp_all
  from empty user row stored id rest show ?thesis by blast
qed

text \<open>
  The claim as the specification states it fails: with the graph engine down, creating
  the first user stores the user and raises; no user is returned.
\<close>

theorem propagation_failure_counterexample:
  "create_user sample_hash False 100
       \<lparr>uc_username = ''alice'', uc_email = ''alice@example.org'', uc_password = ''wonderland''\<rparr>
       init_state =
     (Inl ServiceUnavailable,
      \<lparr>db = \<lparr>users = [alice], todos = [], categories = [], users_seq = 2, todos_seq = 1,
              categories_seq = 1\<rparr>,
        neo4j = empty_graph\<rparr>) \<and>
   register sample_hash False 100
       \<lparr>uc_username = ''alice'', uc_email = ''alice@example.org'', uc_password = ''wonderland''\<rparr>
       init_state =
     (Inl ServiceUnavailable,
      \<lparr>db = \<lparr>users = [alice], todos = [], categories = [], users_seq = 2, todos_seq = 1,
              categories_seq = 1\<rparr>,
        neo4j = empty_graph\<rparr>)"
  by (simp add: register_def get_user_by_username_def get_user_by_email_def
      create_user_def insert_user_def create_user_node_def Let_def alice_def
      sample_hash_def init_state_def empty_database_def)

section \<open>The todos table in reachable states\<close>

lemma create_user_todos:
  "todos (db (snd (create_user h up now user s))) = todos (db s) \<and>
   todos_seq (db (snd (create_user h up now user s))) = todos_seq (db s)"
  by (auto simp: create_user_def insert_user_def Let_def split: sum.splits prod.splits if_splits)

lemma register_todos:
  "todos (db (snd (register h up now user s))) = todos (db s) \<and>
   todos_seq (db (snd (register h up now user s))) = todos_seq (db s)"
  by (simp add: register_def create_user_todos split: option.splits)

lemma create_category_todos:
  "todos (db (snd (create_category up now category user_id s))) = todos (db s) \<and>
   todos_seq (db (snd (create_category up now category user_id s))) = todos_seq (db s)"
  by (auto simp: create_category_def insert_category_def Let_def
      split: sum.splits prod.splits if_splits)

lemma create_todo_table_ok:
  assumes "todos_table_ok (db s)"
  shows "todos_table_ok (db (snd (create_todo up now todo user_id s)))"
proof -
  from assms have "todos_seq (db s) \<notin> t_id ` set (todos (db s))"
    by (auto simp: todos_table_ok_def)
  with assms show ?thesis
    by (auto simp: todos_table_ok_def create_todo_def insert_todo_def Let_def
        split: sum.splits prod.splits if_splits)
qed

lemma map_replace_ids:
  "t_id row = k \<Longrightarrow> map t_id (map (\<lambda>r. if t_id r = k then row else r) xs) = map t_id xs"
  by (induction xs) auto

lemma update_todo_table_ok:
  assumes "todos_table_ok (db s)"
  shows "todos_table_ok (db (snd (update_todo now todo_id u user_id s)))"
proof (cases "get_todo (db s) todo_id user_id")
  case None
  with assms show ?thesis by (simp add: update_todo_def)
next
  case (Some t)
  let ?obj = "foldl setattr t (dict_exclude_unset u)"
  let ?row = "?obj\<lparr>t_updated_at := Some now\<rparr>"
  note frame = foldl_setattr_frame [of t "dict_exclude_unset u"]
  from get_todo_SomeD(1) [OF Some] assms have "t_id t < todos_seq (db s)"
    by (auto simp: todos_table_ok_def)
  with frame have row: "t_id ?row = t_id t" "t_id ?row < todos_seq (db s)" by simp_all
  let ?rows = "map (\<lambda>r. if t_id r = t_id t then ?row else r) (todos (db s))"
  have ids: "map t_id ?rows = map t_id (todos (db s))"
    using row(1) by (rule map_replace_ids)
  have "todos_table_ok ((db s)\<lparr>todos := ?rows\<rparr>)" if title: "t_title ?obj \<noteq> None"
  proof -
    have "t_id r < todos_seq (db s) \<and> t_title r \<noteq> None" if "r \<in> set ?rows" for r
    proof -
      from that have "r = ?row \<or> r \<in> set (todos (db s))" by auto
      with row(2) title assms show ?thesis by (auto simp: todos_table_ok_def)
    qed
    moreover from assms have "distinct (map t_id ?rows)"
      unfolding ids by (simp add: todos_table_ok_def)
    ultimately show ?thesis by (simp add: todos_table_ok_def del: map_map)
  qed
  with assms show ?thesis
    by (auto simp: update_todo_found [OF Some] Let_def)
qed

lemma delete_todo_table_ok:
  assumes "todos_table_ok (db s)"
  shows "todos_table_ok (db (snd (delete_todo todo_id user_id s)))"
  using assms
  by (auto simp: delete_todo_def delete_row_def todos_table_ok_def distinct_map_filter
      split: option.splits)

lemma api_step_todos_table_ok:
  assumes "api_step s s'" and "todos_table_ok (db s)"
  shows "todos_table_ok (db s')"
  using assms
proof (cases rule: api_step.cases)
  case (step_register get_password_hash up now user)
  with assms(2) show ?thesis by (simp add: todos_table_ok_def register_todos)
next
  case (step_create_todo current_user up now todo)
  with assms(2) show ?thesis by (simp add: api_create_todo_def create_todo_table_ok)
next
  case (step_update_todo current_user now todo_id todo_update)
  with update_todo_table_ok [OF assms(2), of now todo_id todo_update "u_id current_user"]
  show ?thesis
    by (auto simp: api_update_todo_def split: prod.splits sum.splits option.splits)
next
  case (step_delete_todo current_user todo_id)
  with delete_todo_table_ok [OF assms(2), of todo_id "u_id current_user"]
  show ?thesis
    by (auto simp: api_delete_todo_def split: prod.splits option.splits)
next
  case (step_create_category current_user up now category)
  with assms(2) show ?thesis
    by (simp add: todos_table_ok_def api_create_category_def create_category_todos)
qed

lemma reachable_from_todos_table_ok:
  "reachable_from s s' \<Longrightarrow> todos_table_ok (db s) \<Longrightarrow> todos_table_ok (db s')"
  by (induction rule: reachable_from.induct) (auto intro: api_step_todos_table_ok)

text \<open>
  In every reachable state the ids of the todos table are distinct and no title is null:
  the hypotheses on the table made above hold for the states of the service.
\<close>

lemma reachable_todos_table_ok: "reachable s \<Longrightarrow> todos_table_ok (db s)"
  unfolding reachable_def
  by (erule reachable_from_todos_table_ok)
    (simp add: todos_table_ok_def init_state_def empty_database_def)

section \<open>Keyed graphs\<close>

lemma keyed_set_on: "k \<noteq> ''id'' \<Longrightarrow> keyed g \<Longrightarrow> keyed (set_on refs k v g)"
  by (simp add: keyed_def match_nodes_set_on)

lemma keyed_fold: "keyed g \<Longrightarrow> keyed (fold (merge_relationship r) rows g)"
  by (simp add: keyed_def)

lemma keyed_merge_node:
  assumes "merge_node l i g = (refs, g1)" and "keyed g"
  shows "keyed g1"
proof -
  have "length (match_nodes g1 l' i') \<le> 1" for l' i'
  proof (cases "l' = l \<and> i' = i")
    case True
    with merge_node_bound(2) [OF assms(1)] assms(2) show ?thesis
      by (simp add: keyed_def)
  next
    case False
    then have "\<not> has_label_id l' i' \<lparr>node_ref = r, node_label = l, props = [(''id'', VInt i)]\<rparr>" for r
      by (auto simp: has_label_id_def prop_of_def)
    with merge_node_cases [OF assms(1)] have "match_nodes g1 l' i' = match_nodes g l' i'"
      by (auto simp: match_nodes_def)
    with assms(2) show ?thesis by (simp add: keyed_def)
  qed
  then show ?thesis by (simp add: keyed_def)
qed

lemma create_user_node_keyed:
  assumes "create_user_node up g user_id username email = Inr g'" and "keyed g"
  shows "keyed g'"
proof -
  obtain u g1 where m: "merge_node User user_id g = (u, g1)"
    by (cases "merge_node User user_id g")
  from keyed_merge_node [OF m assms(2)] assms(1) show ?thesis
    by (auto simp: create_user_node_def m Let_def keyed_set_on split: if_splits)
qed

lemma create_todo_node_keyed:
  assumes "create_todo_node up g todo_id title user_id = Inr g'" and "keyed g"
  shows "keyed g'"
proof -
  obtain t g1 where m: "merge_node Todo todo_id g = (t, g1)"
    by (cases "merge_node Todo todo_id g")
  from keyed_merge_node [OF m assms(2)] assms(1) show ?thesis
    by (auto simp: create_todo_node_def m Let_def keyed_set_on keyed_fold split: if_splits)
qed

lemma create_category_node_keyed:
  assumes "create_category_node up g category_id name user_id = Inr g'" and "keyed g"
  shows "keyed g'"
proof -
  obtain c g1 where m: "merge_node Category category_id g = (c, g1)"
    by (cases "merge_node Category category_id g")
  from keyed_merge_node [OF m assms(2)] assms(1) show ?thesis
    by (auto simp: create_category_node_def m Let_def keyed_set_on keyed_fold split: if_splits)
qed

lemma api_step_keyed:
  assumes "api_step s s'" and "keyed (neo4j s)"
  shows "keyed (neo4j s')"
  using assms
proof (cases rule: api_step.cases)
  case (step_register get_password_hash up now user)
  with assms(2) show ?thesis
    by (auto simp: register_def create_user_def Let_def
        split: option.splits sum.splits prod.splits dest: create_user_node_keyed)
next
  case (step_create_todo current_user up now todo)
  with assms(2) show ?thesis
    by (auto simp: api_create_todo_def create_todo_def
        split: sum.splits prod.splits dest: create_todo_node_keyed)
next
  case (step_update_todo current_user now todo_id todo_update)
  with assms(2) show ?thesis by (simp add: api_update_todo_graph)
next
  case (step_delete_todo current_user todo_id)
  with assms(2) show ?thesis by (simp add: api_delete_todo_graph)
next
  case (step_create_category current_user up now category)
  with assms(2) show ?thesis
    by (auto simp: api_create_category_def create_category_def
        split: sum.splits prod.splits dest: create_category_node_keyed)
qed

text \<open>
  The graph of every reachable state is keyed: the hypothesis of the idempotence
  theorem holds for the graphs that the service builds.
\<close>

lemma reachable_keyed: "reachable s \<Longrightarrow> length (match_nodes (neo4j s) l i) \<le> 1"
proof -
  have "reachable_from s0 s \<Longrightarrow> keyed (neo4j s0) \<Longrightarrow> keyed (neo4j s)" for s0
    by (induction rule: reachable_from.induct) (auto intro: api_step_keyed)
  moreover have "keyed (neo4j init_state)"
    by (simp add: keyed_def match_nodes_def init_state_def empty_graph_def)
  ultimately show "reachable s \<Longrightarrow> length (match_nodes (neo4j s) l i) \<le> 1"
    by (auto simp: reachable_def keyed_def)
qed

section \<open>Deleting a todo\<close>

lemma update_todo_ids:
  "map t_id (todos (db (snd (update_todo now todo_id u user_id s)))) = map t_id (todos (db s)) \<and>
   todos_seq (db (snd (update_todo now todo_id u user_id s))) = todos_seq (db s)"
proof (cases "get_todo (db s) todo_id user_id")
  case None
  then show ?thesis by (simp add: update_todo_def)
next
  case (Some t)
  have "t_id ((foldl setattr t (dict_exclude_unset u))\<lparr>t_updated_at := Some now\<rparr>) = t_id t"
    using foldl_setattr_frame [of t "dict_exclude_unset u"] by simp
  then show ?thesis
    by (simp add: update_todo_found [OF Some] Let_def map_replace_ids del: map_map)
qed

text \<open>No request brings a retired id back.\<close>

lemma api_step_retired:
  assumes "api_step s s'" and "retired k (db s)"
  shows "retired k (db s')"
  using assms
proof (cases rule: api_step.cases)
  case (step_register get_password_hash up now user)
  with assms(2) show ?thesis by (simp add: retired_def register_todos)
next
  case (step_create_todo current_user up now todo)
  with assms(2) show ?thesis
    by (auto simp: retired_def api_create_todo_def create_todo_def insert_todo_def Let_def
        split: sum.splits prod.splits if_splits)
next
  case (step_update_todo current_user now todo_id todo_update)
  have "snd (api_update_todo now todo_id todo_update current_user s) =
      snd (update_todo now todo_id todo_update (u_id current_user) s)"
    by (simp add: api_update_todo_def split: prod.splits sum.splits option.splits)
  with step_update_todo update_todo_ids [of now todo_id todo_update "u_id current_user" s] assms(2)
  show ?thesis
    by (simp add: retired_def flip: set_map)
next
  case (step_delete_todo current_user todo_id)
  with assms(2) show ?thesis
    by (auto simp: retired_def api_delete_todo_def delete_todo_def delete_row_def split: option.splits)
next
  case (step_create_category current_user up now category)
  with assms(2) show ?thesis by (simp add: retired_def api_create_category_def create_category_todos)
qed

lemma reachable_from_retired:
  "reachable_from s s' \<Longrightarrow> retired k (db s) \<Longrightarrow> retired k (db s')"
  by (induction rule: reachable_from.induct) (auto intro: api_step_retired)

lemma get_todos_rows:
  assumes "get_todos d user_id skip limit = Inr rows"
  shows "set rows \<subseteq> set (todos d)" and "0 \<le> skip \<and> 0 \<le> limit"
proof -
  from assms have rows: "rows = take (nat limit) (drop (nat skip)
      (filter (\<lambda>t. t_user_id t = user_id) (todos d)))"
    and bounds: "0 \<le> skip \<and> 0 \<le> limit"
    by (auto simp: get_todos_def split: if_splits)
  from rows have "set rows \<subseteq> set (filter (\<lambda>t. t_user_id t = user_id) (todos d))"
    by (metis set_take_subset set_drop_subset subset_trans)
  then show "set rows \<subseteq> set (todos d)" by auto
  from bounds show "0 \<le> skip \<and> 0 \<le> limit" .
qed

lemma unlisted:
  assumes "todo_id \<notin> t_id ` set (todos d)"
  shows "case get_todos d user_id skip limit of
           Inl e \<Rightarrow> skip < 0 \<or> limit < 0
         | Inr rows \<Rightarrow> 0 \<le> skip \<and> 0 \<le> limit \<and> todo_id \<notin> t_id ` set rows"
proof (cases "get_todos d user_id skip limit")
  case (Inl e)
  then show ?thesis by (auto simp: get_todos_def split: if_splits)
next
  case (Inr rows)
  from get_todos_rows [OF Inr] assms show ?thesis
    using Inr by auto
qed

text \<open>
  Claim C8. When the user owns a todo of the given id, \<open>delete_todo\<close> returns it and
  leaves the graph mirror exactly as it was, and the users and the categories too. In
  the state it leaves no call of \<open>get_todos\<close> for that user, whatever \<open>skip\<close> and
  \<open>limit\<close>, lists a row of that id (the listing is a list unless \<open>skip\<close> or
  \<open>limit\<close> is negative), whereas the todo was listed before. When the ids of the table
  came from its sequence, the same holds in every state that later requests lead to.
\<close>

theorem delete_todo_unlisted:
  assumes "get_todo (db s) todo_id user_id = Some t"
  shows "\<exists>s'. delete_todo todo_id user_id s = (Some t, s') \<and>
           neo4j s' = neo4j s \<and>
           users (db s') = users (db s) \<and> categories (db s') = categories (db s) \<and>
           (\<forall>skip limit.
              (case get_todos (db s') user_id skip limit of
                 Inl e \<Rightarrow> skip < 0 \<or> limit < 0
               | Inr rows \<Rightarrow> 0 \<le> skip \<and> 0 \<le> limit \<and> todo_id \<notin> t_id ` set rows)) \<and>
           (todos_table_ok (db s) \<longrightarrow>
              (\<forall>s'' skip limit. reachable_from s' s'' \<longrightarrow>
                 (case get_todos (db s'') user_id skip limit of
                    Inl e \<Rightarrow> skip < 0 \<or> limit < 0
                  | Inr rows \<Rightarrow> 0 \<le> skip \<and> 0 \<le> limit \<and> todo_id \<notin> t_id ` set rows))) \<and>
           (\<exists>rows. get_todos (db s) user_id 0 (int (length (todos (db s)))) = Inr rows \<and> t \<in> set rows)"
proof -
  let ?s' = "s\<lparr>db := delete_row (db s) t\<rparr>"
  note t = get_todo_SomeD [OF assms]
  have del: "delete_todo todo_id user_id s = (Some t, ?s')"
    by (simp add: delete_todo_def assms)
  have frame: "neo4j ?s' = neo4j s \<and> users (db ?s') = users (db s) \<and>
      categories (db ?s') = categories (db s)"
    by (simp add: delete_row_def)
  have gone: "todo_id \<notin> t_id ` set (todos (db ?s'))"
    by (auto simp: delete_row_def t(2))
  note now = unlisted [OF gone, where user_id = user_id]
  have later: "case get_todos (db s'') user_id skip limit of
                    Inl e \<Rightarrow> skip < 0 \<or> limit < 0
                  | Inr rows \<Rightarrow> 0 \<le> skip \<and> 0 \<le> limit \<and> todo_id \<notin> t_id ` set rows"
    if ok: "todos_table_ok (db s)" and run: "reachable_from ?s' s''" for s'' skip limit
  proof -
    from ok t(1,2) have "todo_id < todos_seq (db s)"
      by (auto simp: todos_table_ok_def)
    with gone have "retired todo_id (db ?s')"
      by (simp add: retired_def delete_row_def)
    with run have "retired todo_id (db s'')" by (rule reachable_from_retired)
    then have "todo_id \<notin> t_id ` set (todos (db s''))" by (simp add: retired_def)
    then show ?thesis by (rule unlisted)
  qed
  have before: "\<exists>rows. get_todos (db s) user_id 0 (int (length (todos (db s)))) = Inr rows \<and> t \<in> set rows"
    using t by (simp add: get_todos_def)
  from del frame now later before show ?thesis
    by (intro exI [of _ ?s']) blast
qed

theorem delete_todo_unlisted_witness:
  "get_todo (db sample_state) 1 2 = Some ship_release \<and>
   todos_table_ok (db sample_state) \<and>
   delete_todo 1 2 sample_state =
     (Some ship_release, sample_state\<lparr>db := (db sample_state)\<lparr>todos := []\<rparr>\<rparr>) \<and>
   get_todos (db sample_state) 2 0 100 = Inr [ship_release] \<and>
   get_todos (db (snd (delete_todo 1 2 sample_state))) 2 0 100 = Inr [] \<and>
   neo4j (snd (delete_todo 1 2 sample_state)) = neo4j sample_state \<and>
   reachable_from (snd (delete_todo 1 2 sample_state))
     (snd (api_create_todo False 400 write_report bob (snd (delete_todo 1 2 sample_state)))) \<and>
   (\<exists>row. get_todos (db (snd (api_create_todo False 400 write_report bob
                               (snd (delete_todo 1 2 sample_state))))) 2 0 100 = Inr [row] \<and>
           t_id row = 2 \<and> t_title row = Some ''Write report'')"
proof -
  let ?gone = "sample_state\<lparr>db := (db sample_state)\<lparr>todos := []\<rparr>\<rparr>"
  let ?later = "snd (api_create_todo False 400 write_report bob ?gone)"
  have ok: "todos_table_ok (db sample_state)"
    by (simp add: todos_table_ok_def sample_state_eq ship_release_def)
  have "delete_todo 1 2 sample_state =
      (Some ship_release, sample_state\<lparr>db := delete_row (db sample_state) ship_release\<rparr>)"
    by (simp add: delete_todo_def sample_owned)
  moreover have "delete_row (db sample_state) ship_release = (db sample_state)\<lparr>todos := []\<rparr>"
    by (simp add: delete_row_def sample_state_eq)
  ultimately have del: "delete_todo 1 2 sample_state = (Some ship_release, ?gone)" by simp
  have "bob \<in> set (users (db ?gone))" by (simp add: sample_state_eq)
  then have run: "reachable_from ?gone ?later"
    by (intro reachable_from_step [OF reachable_from_start step_create_todo])
  from delete_todo_unlisted [OF sample_owned] del ok run
  have unlisted: "case get_todos (db ?later) 2 0 100 of
                    Inl e \<Rightarrow> (0::int) < 0 \<or> (100::int) < 0
                  | Inr rows \<Rightarrow> (0::int) \<le> 0 \<and> (0::int) \<le> 100 \<and> 1 \<notin> t_id ` set rows"
    and graph: "neo4j ?gone = neo4j sample_state"
    by auto
  have before: "get_todos (db sample_state) 2 0 100 = Inr [ship_release]"
    by (simp add: sample_state_eq get_todos_def ship_release_def)
  have after: "get_todos (db ?gone) 2 0 100 = Inr []"
    by (simp add: get_todos_def)
  have "\<exists>row. get_todos (db ?later) 2 0 100 = Inr [row] \<and>
           t_id row = 2 \<and> t_title row = Some ''Write report''"
    by (simp add: api_create_todo_def create_todo_down get_todos_def sample_state_eq bob_def
        alice_def write_report_def)
  with sample_owned ok del before after graph run show ?thesis by simp
qed

end
